theory Spec2Isabelle
  imports Complex_Main "HOL-Library.AList" "HOL-Library.Log_Nat"
begin

section \<open>JavaScript values\<close>

text \<open>
  The routes of \<^verbatim>\<open>routes/composite.ts\<close> work on untyped JSON (\<^verbatim>\<open>any\<close>): request
  bodies and the decoded bodies of upstream responses. The model therefore keeps the
  dynamic values of JavaScript and the few primitive operations the routes apply to
  them (truthiness, member access, \<^verbatim>\<open>===\<close>, template-literal conversion, object
  spread, \<^verbatim>\<open>parseFloat\<close>, \<^verbatim>\<open>new Date\<close>).

  Numbers: a JavaScript number is an IEEE 754 double. A finite double is modelled by
  its rational value, beside \<open>NaN\<close> and the two infinities, and every arithmetic
  operation computes the exact result and rounds it to the nearest double, ties to
  even, overflowing to an infinity (\<open>roundDouble\<close>). The two zeros are one value: the
  routes divide by no computed number, and comparison, truthiness, template literals
  and JSON do not tell \<^verbatim>\<open>-0\<close> from \<^verbatim>\<open>0\<close>. A number decoded from JSON is a double.
\<close>

datatype number = NaN | PosInf | NegInf | Fin rat

datatype jsval =
    JUndefined
  | JNull
  | JBool bool
  | JNum number
  | JStr string
  | JArr "jsval list"
  | JObj "(string \<times> jsval) list"
  | JBuiltin string

text \<open>
  \<open>JObj fs\<close> is a plain object with the own properties \<open>fs\<close>, read with \<open>map_of\<close>
  and written with \<open>AList.update\<close> (an existing key keeps its place, a new key is
  appended). \<open>JBuiltin k\<close> is the member \<open>k\<close> that every object inherits from
  \<^verbatim>\<open>Object.prototype\<close> (a function, or the prototype itself for \<^verbatim>\<open>__proto__\<close>);
  JSON never contains one, a lookup in a plain object can return one.
\<close>

datatype js_error = JsError (message: string)

definition objectPrototypeKeys :: "string list" where
  "objectPrototypeKeys =
     [''constructor'', ''__proto__'', ''hasOwnProperty'', ''isPrototypeOf'',
      ''propertyIsEnumerable'', ''toLocaleString'', ''toString'', ''valueOf'',
      ''__defineGetter__'', ''__defineSetter__'', ''__lookupGetter__'',
      ''__lookupSetter__'']"

subsection \<open>Numbers\<close>

text \<open>The integer nearest to \<open>x\<close>; of two equally near integers the even one.\<close>

definition roundEven :: "rat \<Rightarrow> int" where
  "roundEven x =
     (let f = \<lfloor>x\<rfloor>; r = x - of_int f
      in if r < 1 / 2 then f else if 1 / 2 < r then f + 1 else if even f then f else f + 1)"

text \<open>The binary exponent \<open>e\<close> of \<open>q \<noteq> 0\<close>: \<open>2^e \<le> \<bar>q\<bar> < 2^(e + 1)\<close>.\<close>

definition binade :: "rat \<Rightarrow> int" where
  "binade q = (if 1 \<le> \<bar>q\<bar> then bitlen \<lfloor>\<bar>q\<bar>\<rfloor> - 1 else - bitlen (\<lceil>1 / \<bar>q\<bar>\<rceil> - 1))"

text \<open>
  Rounding to binary64: 53 significant bits, so a number of exponent \<open>e\<close> is rounded
  to a multiple of \<open>2^(e - 52)\<close>; below the least normal exponent \<open>-1022\<close> the
  spacing stays \<open>2^(-1074)\<close>. A rounded magnitude of \<open>2^1024\<close> or more is an infinity.
\<close>

definition nearest :: "rat \<Rightarrow> rat" where
  "nearest q =
     (if q = 0 then 0
      else (let u = 2 powi (max (binade q) (- 1022) - 52) in of_int (roundEven (q / u)) * u))"

definition roundDouble :: "rat \<Rightarrow> number" where
  "roundDouble q =
     (let d = nearest q
      in if 2 ^ 1024 \<le> \<bar>d\<bar> then (if 0 < d then PosInf else NegInf) else Fin d)"

fun mulNum :: "number \<Rightarrow> number \<Rightarrow> number" where
  "mulNum NaN _ = NaN"
| "mulNum _ NaN = NaN"
| "mulNum (Fin a) (Fin b) = roundDouble (a * b)"
| "mulNum (Fin a) PosInf = (if a = 0 then NaN else if 0 < a then PosInf else NegInf)"
| "mulNum (Fin a) NegInf = (if a = 0 then NaN else if 0 < a then NegInf else PosInf)"
| "mulNum PosInf (Fin b) = (if b = 0 then NaN else if 0 < b then PosInf else NegInf)"
| "mulNum NegInf (Fin b) = (if b = 0 then NaN else if 0 < b then NegInf else PosInf)"
| "mulNum PosInf PosInf = PosInf"
| "mulNum NegInf NegInf = PosInf"
| "mulNum PosInf NegInf = NegInf"
| "mulNum NegInf PosInf = NegInf"

fun addNum :: "number \<Rightarrow> number \<Rightarrow> number" where
  "addNum NaN _ = NaN"
| "addNum _ NaN = NaN"
| "addNum (Fin a) (Fin b) = roundDouble (a + b)"
| "addNum PosInf NegInf = NaN"
| "addNum NegInf PosInf = NaN"
| "addNum PosInf _ = PosInf"
| "addNum NegInf _ = NegInf"
| "addNum (Fin a) PosInf = PosInf"
| "addNum (Fin a) NegInf = NegInf"

fun negNum :: "number \<Rightarrow> number" where
  "negNum NaN = NaN"
| "negNum PosInf = NegInf"
| "negNum NegInf = PosInf"
| "negNum (Fin a) = Fin (- a)"

definition subNum :: "number \<Rightarrow> number \<Rightarrow> number" where
  "subNum a b = addNum a (negNum b)"

text \<open>Division by a finite non-zero constant (the milliseconds of a day).\<close>

fun divBy :: "number \<Rightarrow> rat \<Rightarrow> number" where
  "divBy NaN d = NaN"
| "divBy (Fin a) d = roundDouble (a / d)"
| "divBy PosInf d = (if 0 < d then PosInf else NegInf)"
| "divBy NegInf d = (if 0 < d then NegInf else PosInf)"

text \<open>\<^verbatim>\<open>Math.ceil\<close>; the ceiling of a double is a double.\<close>

fun ceilNum :: "number \<Rightarrow> number" where
  "ceilNum (Fin a) = Fin (of_int \<lceil>a\<rceil>)"
| "ceilNum n = n"

text \<open>\<^verbatim>\<open>a <= b\<close> on numbers: false as soon as one side is \<open>NaN\<close>.\<close>

fun lessEq :: "number \<Rightarrow> number \<Rightarrow> bool" where
  "lessEq NaN _ = False"
| "lessEq _ NaN = False"
| "lessEq (Fin a) (Fin b) = (a \<le> b)"
| "lessEq NegInf _ = True"
| "lessEq _ PosInf = True"
| "lessEq _ _ = False"

subsection \<open>Strings\<close>

definition digitChar :: "nat \<Rightarrow> char" where
  "digitChar d = ''0123456789'' ! d"

fun showNat :: "nat \<Rightarrow> string" where
  "showNat n = (if n < 10 then [digitChar n] else showNat (n div 10) @ [digitChar (n mod 10)])"

definition showInt :: "int \<Rightarrow> string" where
  "showInt i = (if i < 0 then CHR ''-'' # showNat (nat (- i)) else showNat (nat i))"

definition startsWith :: "string \<Rightarrow> string \<Rightarrow> bool" where
  "startsWith s p = (take (length p) s = p)"

text \<open>\<^verbatim>\<open>s.includes(needle)\<close>: \<open>needle\<close> occurs somewhere in \<open>s\<close>.\<close>

fun includesStr :: "string \<Rightarrow> string \<Rightarrow> bool" where
  "includesStr [] needle = (needle = [])"
| "includesStr (c # cs) needle = (startsWith (c # cs) needle \<or> includesStr cs needle)"

definition isDigit :: "char \<Rightarrow> bool" where
  "isDigit c = (c \<in> set ''0123456789'')"

definition digitVal :: "char \<Rightarrow> nat" where
  "digitVal c = length (takeWhile (\<lambda>d. d \<noteq> c) ''0123456789'')"

text \<open>The value of a string of decimal digits (0 for the empty string).\<close>

definition digitsVal :: "string \<Rightarrow> nat" where
  "digitsVal ds = foldl (\<lambda>acc c. 10 * acc + digitVal c) 0 ds"

text \<open>ASCII white space; the further Unicode white space of ECMAScript is not modelled.\<close>

definition isSpace :: "char \<Rightarrow> bool" where
  "isSpace c = (c \<in> set [CHR 0x09, CHR 0x0A, CHR 0x0B, CHR 0x0C, CHR 0x0D, CHR 0x20])"

subsection \<open>Primitive operations on values\<close>

text \<open>Truthiness (\<^verbatim>\<open>!v\<close>, \<^verbatim>\<open>v || w\<close>, \<^verbatim>\<open>v ? a : b\<close>).\<close>

fun truthy :: "jsval \<Rightarrow> bool" where
  "truthy JUndefined = False"
| "truthy JNull = False"
| "truthy (JBool b) = b"
| "truthy (JNum n) = (n \<noteq> NaN \<and> n \<noteq> Fin 0)"
| "truthy (JStr s) = (s \<noteq> [])"
| "truthy (JArr xs) = True"
| "truthy (JObj fs) = True"
| "truthy (JBuiltin k) = True"

text \<open>
  Strict equality \<^verbatim>\<open>a === b\<close> between a value decoded from one message and a value
  decoded from another: primitives compare by value (\<open>NaN\<close> equals nothing), two
  arrays or objects are different references.
\<close>

fun strictEquals :: "jsval \<Rightarrow> jsval \<Rightarrow> bool" where
  "strictEquals JUndefined JUndefined = True"
| "strictEquals JNull JNull = True"
| "strictEquals (JBool a) (JBool b) = (a = b)"
| "strictEquals (JNum a) (JNum b) = (a \<noteq> NaN \<and> a = b)"
| "strictEquals (JStr a) (JStr b) = (a = b)"
| "strictEquals _ _ = False"

text \<open>
  Member access \<^verbatim>\<open>v.k\<close>. Reading a member of \<^verbatim>\<open>null\<close> or \<^verbatim>\<open>undefined\<close> throws a
  \<^verbatim>\<open>TypeError\<close> (the message is V8's). An object answers with its own property, else
  with the member inherited from \<^verbatim>\<open>Object.prototype\<close>, else with \<^verbatim>\<open>undefined\<close>.
  Of arrays and strings the own property \<^verbatim>\<open>length\<close> is modelled; the routes read no
  index and no member of \<^verbatim>\<open>Array.prototype\<close> or \<^verbatim>\<open>String.prototype\<close> as data (their
  method calls are \<open>asArray\<close> below).
\<close>

definition inherited :: "string \<Rightarrow> jsval" where
  "inherited k = (if k \<in> set objectPrototypeKeys then JBuiltin k else JUndefined)"

fun getProp :: "jsval \<Rightarrow> string \<Rightarrow> js_error + jsval" where
  "getProp JUndefined k =
     Inl (JsError (''Cannot read properties of undefined (reading '' @ [CHR 0x27] @ k @ [CHR 0x27] @ '')''))"
| "getProp JNull k =
     Inl (JsError (''Cannot read properties of null (reading '' @ [CHR 0x27] @ k @ [CHR 0x27] @ '')''))"
| "getProp (JObj fs) k = Inr (case map_of fs k of Some v \<Rightarrow> v | None \<Rightarrow> inherited k)"
| "getProp (JArr xs) k =
     Inr (if k = ''length'' then JNum (Fin (of_nat (length xs))) else inherited k)"
| "getProp (JStr s) k =
     Inr (if k = ''length'' then JNum (Fin (of_nat (length s))) else inherited k)"
| "getProp (JBool b) k = Inr (inherited k)"
| "getProp (JNum n) k = Inr (inherited k)"
| "getProp (JBuiltin b) k = Inr (inherited k)"

text \<open>
  A method call \<^verbatim>\<open>v.m(...)\<close> for an array method \<open>m\<close> (\<^verbatim>\<open>some\<close>, \<^verbatim>\<open>map\<close>,
  \<^verbatim>\<open>reduce\<close>) on a decoded value named \<open>name\<close> in the source: only an array has the
  method; every other value throws a \<^verbatim>\<open>TypeError\<close>.
\<close>

fun asArray :: "string \<Rightarrow> string \<Rightarrow> jsval \<Rightarrow> js_error + jsval list" where
  "asArray name m (JArr xs) = Inr xs"
| "asArray name m JNull =
     Inl (JsError (''Cannot read properties of null (reading '' @ [CHR 0x27] @ m @ [CHR 0x27] @ '')''))"
| "asArray name m JUndefined =
     Inl (JsError (''Cannot read properties of undefined (reading '' @ [CHR 0x27] @ m @ [CHR 0x27] @ '')''))"
| "asArray name m v = Inl (JsError (name @ ''.'' @ m @ '' is not a function''))"

text \<open>\<^verbatim>\<open>Array.isArray\<close> and \<^verbatim>\<open>typeof v === 'string'\<close>.\<close>

fun isArray :: "jsval \<Rightarrow> bool" where
  "isArray (JArr xs) = True"
| "isArray v = False"

fun isString :: "jsval \<Rightarrow> bool" where
  "isString (JStr s) = True"
| "isString v = False"

text \<open>
  The own enumerable properties that a spread \<^verbatim>\<open>{...v}\<close> copies: those of an object,
  the elements of an array under their indices, the characters of a string under
  theirs, none of any other value (also none of \<^verbatim>\<open>null\<close> and \<^verbatim>\<open>undefined\<close>).
\<close>

fun ownProps :: "jsval \<Rightarrow> (string \<times> jsval) list" where
  "ownProps (JObj fs) = fs"
| "ownProps (JArr xs) = zip (map showNat [0..<length xs]) xs"
| "ownProps (JStr s) = zip (map showNat [0..<length s]) (map (\<lambda>c. JStr [c]) s)"
| "ownProps v = []"

text \<open>An object literal: the properties \<open>ps\<close> are defined one after the other on \<open>fs\<close>.\<close>

definition setProps :: "(string \<times> jsval) list \<Rightarrow> (string \<times> jsval) list \<Rightarrow> (string \<times> jsval) list" where
  "setProps fs ps = foldl (\<lambda>acc (k, v). AList.update k v acc) fs ps"

text \<open>
  \<^verbatim>\<open>Number::toString\<close>: decimal digits for an integer below \<open>10^21\<close>; the shortest
  round-trip notation of any other finite double belongs to the host and is the
  parameter \<open>numStr\<close>.
\<close>

fun numberToString :: "(rat \<Rightarrow> string) \<Rightarrow> number \<Rightarrow> string" where
  "numberToString numStr NaN = ''NaN''"
| "numberToString numStr PosInf = ''Infinity''"
| "numberToString numStr NegInf = ''-Infinity''"
| "numberToString numStr (Fin a) =
     (if a = of_int \<lfloor>a\<rfloor> \<and> \<bar>a\<bar> < 10 ^ 21 then showInt \<lfloor>a\<rfloor> else numStr a)"

text \<open>
  The conversion to string of a template literal \<^verbatim>\<open>`${v}`\<close> and of a computed property
  key. An array joins its elements with commas, \<^verbatim>\<open>null\<close> and \<^verbatim>\<open>undefined\<close> elements
  as empty strings. A plain object is \<^verbatim>\<open>[object Object]\<close>, unless JSON gave it an own
  property \<^verbatim>\<open>toString\<close>: that value is not callable, neither is an own \<^verbatim>\<open>valueOf\<close>,
  and the inherited \<^verbatim>\<open>valueOf\<close> returns the object, so the conversion throws.
\<close>

fun toStringJs :: "(rat \<Rightarrow> string) \<Rightarrow> jsval \<Rightarrow> js_error + string"
  and joinJs :: "(rat \<Rightarrow> string) \<Rightarrow> jsval list \<Rightarrow> js_error + string" where
  "toStringJs numStr JUndefined = Inr ''undefined''"
| "toStringJs numStr JNull = Inr ''null''"
| "toStringJs numStr (JBool b) = Inr (if b then ''true'' else ''false'')"
| "toStringJs numStr (JNum n) = Inr (numberToString numStr n)"
| "toStringJs numStr (JStr s) = Inr s"
| "toStringJs numStr (JArr xs) = joinJs numStr xs"
| "toStringJs numStr (JObj fs) =
     (if map_of fs ''toString'' = None then Inr ''[object Object]''
      else Inl (JsError ''Cannot convert object to primitive value''))"
| "toStringJs numStr (JBuiltin k) =
     Inr (if k = ''__proto__'' then ''[object Object]''
          else ''function '' @ k @ ''() { [native code] }'')"
| "joinJs numStr [] = Inr []"
| "joinJs numStr (x # xs) =
     (case (if x = JNull \<or> x = JUndefined then Inr [] else toStringJs numStr x) of
        Inl e \<Rightarrow> Inl e
      | Inr s \<Rightarrow>
          (if xs = [] then Inr s
           else (case joinJs numStr xs of Inl e \<Rightarrow> Inl e | Inr t \<Rightarrow> Inr (s @ '','' @ t))))"

subsection \<open>\<^verbatim>\<open>parseFloat\<close>\<close>

text \<open>
  \<^verbatim>\<open>parseFloat\<close> skips leading white space and reads the longest prefix that is a
  decimal literal: an optional sign, then \<^verbatim>\<open>Infinity\<close> or digits with an optional
  fraction and an optional exponent (counted only when it has digits). No such prefix
  gives \<open>NaN\<close>. The value is the decimal value rounded to the nearest double (as V8
  rounds it, also where ECMAScript lets an engine approximate a literal of more than
  20 significant digits).
\<close>

definition parseExponent :: "string \<Rightarrow> int" where
  "parseExponent r =
     (case r of
        [] \<Rightarrow> 0
      | c # r1 \<Rightarrow>
          if c = CHR ''e'' \<or> c = CHR ''E'' then
            (let sg = (case r1 of [] \<Rightarrow> 1 | d # r3 \<Rightarrow> if d = CHR ''-'' then - 1 else (1 :: int));
                 r2 = (case r1 of [] \<Rightarrow> []
                       | d # r3 \<Rightarrow> if d = CHR ''-'' \<or> d = CHR ''+'' then r3 else r1);
                 ds = takeWhile isDigit r2
             in if ds = [] then 0 else sg * int (digitsVal ds))
          else 0)"

definition parseFloatStr :: "string \<Rightarrow> number" where
  "parseFloatStr s =
     (let t = dropWhile isSpace s;
          negative = (t \<noteq> [] \<and> hd t = CHR ''-'');
          u = (if t \<noteq> [] \<and> (hd t = CHR ''-'' \<or> hd t = CHR ''+'') then tl t else t)
      in if startsWith u ''Infinity'' then (if negative then NegInf else PosInf)
         else
           (let ip = takeWhile isDigit u;
                r1 = dropWhile isDigit u;
                dot = (r1 \<noteq> [] \<and> hd r1 = CHR ''.'');
                fp = (if dot then takeWhile isDigit (tl r1) else []);
                r2 = (if dot then dropWhile isDigit (tl r1) else r1)
            in if ip = [] \<and> fp = [] then NaN
               else
                 (let m = (of_nat (digitsVal (ip @ fp)) :: rat) / 10 ^ length fp;
                      ex = parseExponent r2;
                      a = (if 0 \<le> ex then m * 10 ^ nat ex else m / 10 ^ nat (- ex))
                  in roundDouble (if negative then - a else a))))"

text \<open>
  \<^verbatim>\<open>parseFloat(v)\<close> converts its argument to a string first. For a number the
  conversion and the parse give the number back, which the model takes directly.
\<close>

fun parseFloat :: "(rat \<Rightarrow> string) \<Rightarrow> jsval \<Rightarrow> js_error + number" where
  "parseFloat numStr (JNum n) = Inr n"
| "parseFloat numStr v =
     (case toStringJs numStr v of Inl e \<Rightarrow> Inl e | Inr s \<Rightarrow> Inr (parseFloatStr s))"

subsection \<open>\<^verbatim>\<open>Date\<close>\<close>

text \<open>
  A \<^verbatim>\<open>Date\<close> is its time value: milliseconds since the epoch, or \<open>NaN\<close> for an
  invalid date. ECMAScript fixes the parse of the date-only form \<^verbatim>\<open>YYYY-MM-DD\<close>
  (midnight UTC of that day) and of the UTC date-time form
  \<^verbatim>\<open>YYYY-MM-DDTHH:mm:ss.sssZ\<close> that \<^verbatim>\<open>toISOString\<close> and JSON write; both are modelled
  here for every valid calendar day and every time of day up to \<^verbatim>\<open>23:59:59.999\<close>.
  What \<^verbatim>\<open>Date.parse\<close> makes of any other string (the shorter and the offset forms,
  date-times in local time, legacy formats, days a lenient engine rolls over) belongs
  to the host and is the parameter \<open>hostParse\<close>.
\<close>

definition isLeapYear :: "int \<Rightarrow> bool" where
  "isLeapYear y = (y mod 4 = 0 \<and> (y mod 100 \<noteq> 0 \<or> y mod 400 = 0))"

definition daysInMonth :: "int \<Rightarrow> int \<Rightarrow> int" where
  "daysInMonth y m =
     (if m = 2 then (if isLeapYear y then 29 else 28)
      else if m = 4 \<or> m = 6 \<or> m = 9 \<or> m = 11 then 30 else 31)"

text \<open>Days from 1970-01-01 to the day \<open>d\<close> of month \<open>m\<close> of year \<open>y\<close> (Gregorian).\<close>

definition daysFromCivil :: "int \<Rightarrow> int \<Rightarrow> int \<Rightarrow> int" where
  "daysFromCivil y m d =
     (let y' = (if m \<le> 2 then y - 1 else y);
          era = y' div 400;
          yoe = y' - era * 400;
          mp = (if 2 < m then m - 3 else m + 9);
          doy = (153 * mp + 2) div 5 + d - 1;
          doe = yoe * 365 + yoe div 4 - yoe div 100 + doy
      in era * 146097 + doe - 719468)"

definition msPerDay :: rat where
  "msPerDay = 1000 * 60 * 60 * 24"

definition parseIsoDate :: "string \<Rightarrow> int option" where
  "parseIsoDate s =
     (if length s = 10 \<and> s ! 4 = CHR ''-'' \<and> s ! 7 = CHR ''-''
         \<and> list_all isDigit (take 4 s) \<and> list_all isDigit (take 2 (drop 5 s))
         \<and> list_all isDigit (drop 8 s)
      then
        (let y = int (digitsVal (take 4 s));
             m = int (digitsVal (take 2 (drop 5 s)));
             d = int (digitsVal (drop 8 s))
         in if 1 \<le> m \<and> m \<le> 12 \<and> 1 \<le> d \<and> d \<le> daysInMonth y m
            then Some (daysFromCivil y m d * 86400000) else None)
      else None)"

definition parseIsoDateTime :: "string \<Rightarrow> int option" where
  "parseIsoDateTime s =
     (if length s = 24 \<and> s ! 10 = CHR ''T'' \<and> s ! 13 = CHR '':'' \<and> s ! 16 = CHR '':''
         \<and> s ! 19 = CHR ''.'' \<and> s ! 23 = CHR ''Z''
         \<and> list_all isDigit (take 2 (drop 11 s)) \<and> list_all isDigit (take 2 (drop 14 s))
         \<and> list_all isDigit (take 2 (drop 17 s)) \<and> list_all isDigit (take 3 (drop 20 s))
      then
        (case parseIsoDate (take 10 s) of
           None \<Rightarrow> None
         | Some day \<Rightarrow>
             (let h = int (digitsVal (take 2 (drop 11 s)));
                  mi = int (digitsVal (take 2 (drop 14 s)));
                  sec = int (digitsVal (take 2 (drop 17 s)));
                  ms = int (digitsVal (take 3 (drop 20 s)))
              in if h \<le> 23 \<and> mi \<le> 59 \<and> sec \<le> 59
                 then Some (day + ((h * 60 + mi) * 60 + sec) * 1000 + ms) else None))
      else None)"

definition dateParse :: "(string \<Rightarrow> int option) \<Rightarrow> string \<Rightarrow> number" where
  "dateParse hostParse s =
     (case parseIsoDate s of
        Some t \<Rightarrow> Fin (of_int t)
      | None \<Rightarrow>
          (case parseIsoDateTime s of
             Some t \<Rightarrow> Fin (of_int t)
           | None \<Rightarrow> (case hostParse s of Some t \<Rightarrow> Fin (of_int t) | None \<Rightarrow> NaN)))"

text \<open>\<^verbatim>\<open>TimeClip\<close>: a finite number within the range of dates, cut to an integer.\<close>

fun timeClip :: "number \<Rightarrow> number" where
  "timeClip (Fin a) =
     (if \<bar>a\<bar> \<le> 8640000000000000 then Fin (of_int (if 0 \<le> a then \<lfloor>a\<rfloor> else \<lceil>a\<rceil>)) else NaN)"
| "timeClip n = NaN"

text \<open>
  \<^verbatim>\<open>new Date(v)\<close> for one argument: a string is parsed, an array or object is
  converted to a string and parsed, every other value is converted to a number.
\<close>

fun newDate :: "(string \<Rightarrow> int option) \<Rightarrow> (rat \<Rightarrow> string) \<Rightarrow> jsval \<Rightarrow> js_error + number" where
  "newDate hostParse numStr (JStr s) = Inr (dateParse hostParse s)"
| "newDate hostParse numStr (JNum n) = Inr (timeClip n)"
| "newDate hostParse numStr (JBool b) = Inr (Fin (if b then 1 else 0))"
| "newDate hostParse numStr JNull = Inr (Fin 0)"
| "newDate hostParse numStr JUndefined = Inr NaN"
| "newDate hostParse numStr v =
     (case toStringJs numStr v of Inl e \<Rightarrow> Inl e | Inr s \<Rightarrow> Inr (dateParse hostParse s))"

section \<open>The upstream services and the HTTP client\<close>

text \<open>
  \<^verbatim>\<open>http-client.ts\<close>. A request is what \<^verbatim>\<open>fetch\<close> is called with; \<^verbatim>\<open>fetch\<close> either
  rejects (a network failure, with its message) or resolves with a status, a status
  text and a body that \<^verbatim>\<open>response.json()\<close> decodes (\<open>Inr\<close>) or rejects (\<open>Inl\<close>, the
  message of the syntax error).

  The three services are one function from requests to outcomes: a snapshot of the
  services for the time of one incoming request. Every computation returns, beside its
  result, the list of the requests it issued.
\<close>

datatype http_method = GET | POST

datatype request = Request (verb: http_method) (url: string) (payload: "jsval option")

datatype fetch_result =
    FetchFailed string
  | Response nat string "string + jsval"

text \<open>
  The environment of the routes: the services, the three base addresses of
  \<^verbatim>\<open>services.ts\<close>, the host's part of \<^verbatim>\<open>Date.parse\<close> and of \<^verbatim>\<open>Number::toString\<close>,
  and \<open>race\<close>, which says which of the rejections of a \<^verbatim>\<open>Promise.all\<close> comes first
  in time.
\<close>

record env =
  fetch :: "request \<Rightarrow> fetch_result"
  DESTINATIONS_URL :: string
  PRICING_URL :: string
  ITINERARIES_URL :: string
  hostDateParse :: "string \<Rightarrow> int option"
  hostNumStr :: "rat \<Rightarrow> string"
  race :: "js_error list \<Rightarrow> nat"

type_synonym 'a io = "(js_error + 'a) \<times> request list"

definition ret :: "'a \<Rightarrow> 'a io" where
  "ret x = (Inr x, [])"

definition throw :: "js_error \<Rightarrow> 'a io" where
  "throw e = (Inl e, [])"

text \<open>A synchronous computation that returns or throws, and issues nothing.\<close>

definition lift :: "js_error + 'a \<Rightarrow> 'a io" where
  "lift r = (r, [])"

text \<open>\<^verbatim>\<open>const x = await m; ...\<close>: what follows runs only when \<open>m\<close> is fulfilled.\<close>

definition andThen :: "'a io \<Rightarrow> ('a \<Rightarrow> 'b io) \<Rightarrow> 'b io" where
  "andThen m f =
     (case m of
        (Inl e, t) \<Rightarrow> (Inl e, t)
      | (Inr x, t) \<Rightarrow> (case f x of (r, t') \<Rightarrow> (r, t @ t')))"

fun rejections :: "(js_error + 'a) list \<Rightarrow> js_error list" where
  "rejections [] = []"
| "rejections (Inl e # rs) = e # rejections rs"
| "rejections (Inr x # rs) = rejections rs"

fun fulfilled :: "(js_error + 'a) list \<Rightarrow> 'a list" where
  "fulfilled [] = []"
| "fulfilled (Inl e # rs) = fulfilled rs"
| "fulfilled (Inr x # rs) = x # fulfilled rs"

text \<open>
  \<^verbatim>\<open>Promise.all\<close>: every promise of the list has been started and runs to its end,
  whatever the others do, so the requests of all of them are issued (listed here
  promise by promise; in time they interleave). The result is the list of the values
  when all are fulfilled, and otherwise the rejection that comes first in time.
\<close>

definition promiseAll :: "(js_error list \<Rightarrow> nat) \<Rightarrow> 'a io list \<Rightarrow> 'a list io" where
  "promiseAll rc ms =
     (let rs = map fst ms; es = rejections rs
      in (if es = [] then Inr (fulfilled rs) else Inl (es ! (rc es mod length es)),
          concat (map snd ms)))"

text \<open>\<^verbatim>\<open>Promise.all([a, b])\<close> of two promises of different types.\<close>

definition promiseAll2 :: "(js_error list \<Rightarrow> nat) \<Rightarrow> 'a io \<Rightarrow> 'b io \<Rightarrow> ('a \<times> 'b) io" where
  "promiseAll2 rc a b =
     (case (fst a, fst b) of
        (Inr x, Inr y) \<Rightarrow> (Inr (x, y), snd a @ snd b)
      | (Inl e, Inr y) \<Rightarrow> (Inl e, snd a @ snd b)
      | (Inr x, Inl e) \<Rightarrow> (Inl e, snd a @ snd b)
      | (Inl e, Inl e') \<Rightarrow> (Inl ([e, e'] ! (rc [e, e'] mod 2)), snd a @ snd b))"

definition okStatus :: "nat \<Rightarrow> bool" where
  "okStatus st = (200 \<le> st \<and> st \<le> 299)"

text \<open>What \<^verbatim>\<open>get\<close> and \<^verbatim>\<open>post\<close> make of the outcome of \<^verbatim>\<open>fetch(url)\<close>.\<close>

definition decode :: "string \<Rightarrow> fetch_result \<Rightarrow> js_error + jsval" where
  "decode u r =
     (case r of
        FetchFailed m \<Rightarrow> Inl (JsError m)
      | Response st txt b \<Rightarrow>
          if \<not> okStatus st
          then Inl (JsError (''HTTP '' @ showNat st @ '': '' @ txt @ '' from '' @ u))
          else (case b of Inl m \<Rightarrow> Inl (JsError m) | Inr v \<Rightarrow> Inr v))"

definition httpGet :: "env \<Rightarrow> string \<Rightarrow> string \<Rightarrow> jsval io" where
  "httpGet env baseUrl path =
     (let u = baseUrl @ path; rq = Request GET u None in (decode u (fetch env rq), [rq]))"

definition httpPost :: "env \<Rightarrow> string \<Rightarrow> string \<Rightarrow> jsval \<Rightarrow> jsval io" where
  "httpPost env baseUrl path b =
     (let u = baseUrl @ path; rq = Request POST u (Some b) in (decode u (fetch env rq), [rq]))"

text \<open>\<^verbatim>\<open>services.ts\<close>: one client per service.\<close>

definition destinationsGet :: "env \<Rightarrow> string \<Rightarrow> jsval io" where
  "destinationsGet env path = httpGet env (DESTINATIONS_URL env) path"

definition pricingGet :: "env \<Rightarrow> string \<Rightarrow> jsval io" where
  "pricingGet env path = httpGet env (PRICING_URL env) path"

definition itinerariesGet :: "env \<Rightarrow> string \<Rightarrow> jsval io" where
  "itinerariesGet env path = httpGet env (ITINERARIES_URL env) path"

definition itinerariesPost :: "env \<Rightarrow> string \<Rightarrow> jsval \<Rightarrow> jsval io" where
  "itinerariesPost env path b = httpPost env (ITINERARIES_URL env) path b"

text \<open>What a route answers: \<^verbatim>\<open>res.status(st).json(v)\<close>.\<close>

datatype reply = Reply (status: nat) (body: jsval)

text \<open>
  The \<^verbatim>\<open>try { ... } catch (error)\<close> around each route: an error becomes the answer
  500 with \<^verbatim>\<open>error.message || fallback\<close>.
\<close>

definition catch500 :: "string \<Rightarrow> reply io \<Rightarrow> reply \<times> request list" where
  "catch500 fallback m =
     (case m of
        (Inr r, t) \<Rightarrow> (r, t)
      | (Inl e, t) \<Rightarrow>
          (Reply 500 (JObj [(''error'', JStr (if message e \<noteq> [] then message e else fallback))]), t))"

section \<open>The validation helpers\<close>

text \<open>The result \<^verbatim>\<open>{ valid: true }\<close> or \<^verbatim>\<open>{ valid: false, error }\<close> of a single check.\<close>

datatype check = Valid | Invalid (error: string)

text \<open>
  \<^verbatim>\<open>validateCityExists(cityId: string)\<close>. The \<^verbatim>\<open>catch\<close> turns an error whose message
  includes \<^verbatim>\<open>404\<close> into the invalid result and throws every other error again.
\<close>

definition validateCityExists :: "env \<Rightarrow> string \<Rightarrow> check io" where
  "validateCityExists env cityId =
     (case destinationsGet env (''/cities/'' @ cityId) of
        (Inr v, t) \<Rightarrow> (Inr Valid, t)
      | (Inl e, t) \<Rightarrow>
          if includesStr (message e) ''404''
          then (Inr (Invalid (''City with ID '' @ [CHR 0x27] @ cityId @ [CHR 0x27] @ '' does not exist'')), t)
          else (Inl e, t))"

text \<open>The callback of \<^verbatim>\<open>classes.some\<close>.\<close>

definition classMatches :: "jsval \<Rightarrow> jsval \<Rightarrow> js_error + bool" where
  "classMatches lodgingClass lc =
     (if isString lc then Inr (strictEquals lc lodgingClass)
      else (case getProp lc ''class_name'' of
              Inl e \<Rightarrow> Inl e
            | Inr v \<Rightarrow> Inr (strictEquals v lodgingClass)))"

text \<open>\<^verbatim>\<open>xs.some(f)\<close>: stops at the first element for which \<open>f\<close> holds or throws.\<close>

fun someJs :: "(jsval \<Rightarrow> js_error + bool) \<Rightarrow> jsval list \<Rightarrow> js_error + bool" where
  "someJs f [] = Inr False"
| "someJs f (x # xs) =
     (case f x of Inl e \<Rightarrow> Inl e | Inr b \<Rightarrow> if b then Inr True else someJs f xs)"

text \<open>
  \<^verbatim>\<open>validateLodgingClass(lodgingClass)\<close>; its \<^verbatim>\<open>catch\<close> throws every error again. The
  argument is \<^verbatim>\<open>segment.lodging_class\<close>, any truthy value, compared with \<^verbatim>\<open>===\<close>.
\<close>

definition validateLodgingClass :: "env \<Rightarrow> jsval \<Rightarrow> check io" where
  "validateLodgingClass env lodgingClass =
     andThen (pricingGet env ''/lodging-classes'') (\<lambda>classes.
     andThen (lift (asArray ''classes'' ''some'' classes)) (\<lambda>cs.
     andThen (lift (someJs (classMatches lodgingClass) cs)) (\<lambda>exists.
       if \<not> exists then
         andThen (lift (toStringJs (hostNumStr env) lodgingClass)) (\<lambda>s.
           ret (Invalid (''Lodging class '' @ [CHR 0x27] @ s @ [CHR 0x27] @ '' does not exist'')))
       else ret Valid)))"

record segment_validation =
  valid :: bool
  errors :: "string list"

text \<open>
  \<^verbatim>\<open>validateSegment(segment)\<close>. Each block contributes the errors it pushes.
  \<^verbatim>\<open>validateCityExists\<close> uses its argument only inside template literals, so the
  call converts \<^verbatim>\<open>segment.city_id\<close> to a string; a conversion that throws is thrown
  again by the \<^verbatim>\<open>catch\<close> (its message holds no \<^verbatim>\<open>404\<close>).
\<close>

definition cityErrors :: "env \<Rightarrow> jsval \<Rightarrow> string list io" where
  "cityErrors env segment =
     andThen (lift (getProp segment ''city_id'')) (\<lambda>city_id.
       if \<not> truthy city_id then ret [''Segment missing city_id'']
       else
         andThen (lift (toStringJs (hostNumStr env) city_id)) (\<lambda>cityId.
         andThen (validateCityExists env cityId) (\<lambda>cityValidation.
           ret (case cityValidation of Valid \<Rightarrow> [] | Invalid m \<Rightarrow> [m]))))"

definition lodgingErrors :: "env \<Rightarrow> jsval \<Rightarrow> string list io" where
  "lodgingErrors env segment =
     andThen (lift (getProp segment ''lodging_class'')) (\<lambda>lodging_class.
       if \<not> truthy lodging_class then ret [''Segment missing lodging_class'']
       else
         andThen (validateLodgingClass env lodging_class) (\<lambda>lodgingValidation.
           ret (case lodgingValidation of Valid \<Rightarrow> [] | Invalid m \<Rightarrow> [m])))"

definition dateErrors :: "env \<Rightarrow> jsval \<Rightarrow> js_error + string list" where
  "dateErrors env segment =
     (case getProp segment ''start_date'' of Inl e \<Rightarrow> Inl e | Inr start_date \<Rightarrow>
      case getProp segment ''end_date'' of Inl e \<Rightarrow> Inl e | Inr end_date \<Rightarrow>
        (let missing =
               (if \<not> truthy start_date then [''Segment missing start_date''] else [])
               @ (if \<not> truthy end_date then [''Segment missing end_date''] else [])
         in if truthy start_date \<and> truthy end_date then
              (case newDate (hostDateParse env) (hostNumStr env) start_date of
                 Inl e \<Rightarrow> Inl e
               | Inr start \<Rightarrow>
                   (case newDate (hostDateParse env) (hostNumStr env) end_date of
                      Inl e \<Rightarrow> Inl e
                    | Inr end \<Rightarrow>
                        Inr (missing
                             @ (if lessEq end start then [''end_date must be after start_date'']
                                else []))))
            else Inr missing))"

definition validateSegment :: "env \<Rightarrow> jsval \<Rightarrow> segment_validation io" where
  "validateSegment env segment =
     andThen (cityErrors env segment) (\<lambda>es1.
     andThen (lodgingErrors env segment) (\<lambda>es2.
     andThen (lift (dateErrors env segment)) (\<lambda>es3.
       (let es = es1 @ es2 @ es3 in ret \<lparr>valid = (length es = 0), errors = es\<rparr>))))"

section \<open>The composite routes\<close>

definition bindE :: "js_error + 'a \<Rightarrow> ('a \<Rightarrow> js_error + 'b) \<Rightarrow> js_error + 'b" where
  "bindE r f = (case r of Inl e \<Rightarrow> Inl e | Inr x \<Rightarrow> f x)"

text \<open>\<^verbatim>\<open>xs.map(f)\<close> for a synchronous \<open>f\<close> that may throw.\<close>

fun mapE :: "('a \<Rightarrow> js_error + 'b) \<Rightarrow> 'a list \<Rightarrow> js_error + 'b list" where
  "mapE f [] = Inr []"
| "mapE f (x # xs) =
     (case f x of
        Inl e \<Rightarrow> Inl e
      | Inr y \<Rightarrow> (case mapE f xs of Inl e \<Rightarrow> Inl e | Inr ys \<Rightarrow> Inr (y # ys)))"

text \<open>\<^verbatim>\<open>xs.reduce(f, init)\<close> for a synchronous \<open>f\<close> that may throw.\<close>

fun reduceE :: "('a \<Rightarrow> 'b \<Rightarrow> js_error + 'a) \<Rightarrow> 'a \<Rightarrow> 'b list \<Rightarrow> js_error + 'a" where
  "reduceE f acc [] = Inr acc"
| "reduceE f acc (x # xs) = (case f acc x of Inl e \<Rightarrow> Inl e | Inr acc' \<Rightarrow> reduceE f acc' xs)"

text \<open>\<^verbatim>\<open>`${v.k}`\<close>: the member \<open>k\<close> of \<open>v\<close> inside a template literal.\<close>

definition memberStr :: "env \<Rightarrow> jsval \<Rightarrow> string \<Rightarrow> js_error + string" where
  "memberStr env v k = bindE (getProp v k) (toStringJs (hostNumStr env))"

text \<open>
  The \<^verbatim>\<open>Promise.all\<close> of the two reads that both \<^verbatim>\<open>GET /itineraries/:id\<close> and
  \<^verbatim>\<open>GET /quotes/:itinerary_id\<close> start for a segment. The arguments are evaluated in
  order: when the path of the second read throws, the first read is already issued.
\<close>

definition cityAndRates :: "env \<Rightarrow> jsval \<Rightarrow> (jsval \<times> jsval) io" where
  "cityAndRates env segment =
     (case memberStr env segment ''city_id'' of
        Inl e \<Rightarrow> throw e
      | Inr cityId \<Rightarrow>
          (let cityRead = destinationsGet env (''/cities/'' @ cityId)
           in (case memberStr env segment ''lodging_class'' of
                 Inl e \<Rightarrow> (Inl e, snd cityRead)
               | Inr lodgingClass \<Rightarrow>
                   promiseAll2 (race env) cityRead
                     (pricingGet env
                        (''/rates?city_id='' @ cityId @ ''&lodging_class='' @ lodgingClass)))))"

subsection \<open>\<^verbatim>\<open>GET /composite/itineraries/:id\<close>\<close>

definition enrichSegment :: "env \<Rightarrow> jsval \<Rightarrow> jsval io" where
  "enrichSegment env segment =
     andThen (cityAndRates env segment) (\<lambda>(city, rates).
     andThen (lift (getProp city ''name'')) (\<lambda>name.
     andThen (lift (getProp city ''country_code'')) (\<lambda>country_code.
     andThen (lift (getProp city ''currency'')) (\<lambda>currency.
       ret (JObj (setProps (ownProps segment)
              [(''city_name'', name), (''country_code'', country_code),
               (''currency'', currency),
               (''rates'', if truthy rates then rates else JArr [])]))))))"

definition getItinerary :: "env \<Rightarrow> string \<Rightarrow> reply \<times> request list" where
  "getItinerary env itineraryId =
     catch500 ''Failed to fetch composite itinerary''
       (andThen
          (promiseAll2 (race env)
             (itinerariesGet env (''/itineraries/'' @ itineraryId))
             (itinerariesGet env (''/itineraries/'' @ itineraryId @ ''/segments'')))
          (\<lambda>(itinerary, segments).
        andThen (lift (asArray ''segments'' ''map'' segments)) (\<lambda>segs.
        andThen (promiseAll (race env) (map (enrichSegment env) segs)) (\<lambda>enrichedSegments.
          ret (Reply 200
                 (JObj (setProps (ownProps itinerary)
                          [(''segments'', JArr enrichedSegments)])))))))"

subsection \<open>\<^verbatim>\<open>GET /composite/destinations\<close>\<close>

text \<open>\<^verbatim>\<open>response.data || response\<close>.\<close>

definition unwrapData :: "jsval \<Rightarrow> js_error + jsval" where
  "unwrapData response =
     bindE (getProp response ''data'') (\<lambda>d. Inr (if truthy d then d else response))"

text \<open>
  The accumulator of the \<^verbatim>\<open>reduce\<close> is a plain object whose own properties are arrays
  of seasons: an association list from keys to the seasons pushed so far. A key that
  is not an own property but a member inherited from \<^verbatim>\<open>Object.prototype\<close> reads as
  that member, which is truthy and has no \<^verbatim>\<open>push\<close>.
\<close>

definition groupStep ::
  "env \<Rightarrow> (string \<times> jsval list) list \<Rightarrow> jsval \<Rightarrow> js_error + (string \<times> jsval list) list" where
  "groupStep env acc season =
     bindE (memberStr env season ''city_id'') (\<lambda>k.
       case map_of acc k of
         Some ss \<Rightarrow> Inr (AList.update k (ss @ [season]) acc)
       | None \<Rightarrow>
           if k \<in> set objectPrototypeKeys
           then Inl (JsError ''acc[season.city_id].push is not a function'')
           else Inr (AList.update k [season] acc))"

text \<open>\<^verbatim>\<open>seasonsByCity[key] || []\<close>.\<close>

definition seasonsOf :: "(string \<times> jsval list) list \<Rightarrow> string \<Rightarrow> jsval" where
  "seasonsOf seasonsByCity k =
     (case map_of seasonsByCity k of
        Some ss \<Rightarrow> JArr ss
      | None \<Rightarrow> if truthy (inherited k) then inherited k else JArr [])"

definition enrichCity :: "env \<Rightarrow> (string \<times> jsval list) list \<Rightarrow> jsval \<Rightarrow> js_error + jsval" where
  "enrichCity env seasonsByCity city =
     bindE (memberStr env city ''id'') (\<lambda>k.
       Inr (JObj (setProps (ownProps city) [(''seasons'', seasonsOf seasonsByCity k)])))"

definition getDestinations :: "env \<Rightarrow> reply \<times> request list" where
  "getDestinations env =
     catch500 ''Failed to fetch destinations''
       (andThen
          (promiseAll2 (race env)
             (destinationsGet env ''/cities?limit=100'')
             (destinationsGet env ''/seasons?limit=100''))
          (\<lambda>(citiesResponse, seasonsResponse).
        andThen (lift (unwrapData citiesResponse)) (\<lambda>cities.
        andThen (lift (unwrapData seasonsResponse)) (\<lambda>seasons.
        andThen (lift (asArray ''seasons'' ''reduce'' seasons)) (\<lambda>ss.
        andThen (lift (reduceE (groupStep env) [] ss)) (\<lambda>seasonsByCity.
        andThen (lift (asArray ''cities'' ''map'' cities)) (\<lambda>cs.
        andThen (lift (mapE (enrichCity env seasonsByCity) cs)) (\<lambda>enrichedCities.
          ret (Reply 200 (JArr enrichedCities))))))))))"

subsection \<open>\<^verbatim>\<open>POST /composite/itineraries\<close>\<close>

text \<open>\<^verbatim>\<open>const { itinerary, segments } = req.body\<close>.\<close>

definition destructureBody :: "jsval \<Rightarrow> js_error + jsval \<times> jsval" where
  "destructureBody b =
     (if b = JUndefined \<or> b = JNull then
        Inl (JsError (''Cannot destructure property '' @ [CHR 0x27] @ ''itinerary'' @ [CHR 0x27]
                      @ '' of '' @ [CHR 0x27] @ ''req.body'' @ [CHR 0x27] @ '' as it is ''
                      @ (if b = JNull then ''null'' else ''undefined'') @ ''.''))
      else bindE (getProp b ''itinerary'') (\<lambda>itinerary.
           bindE (getProp b ''segments'') (\<lambda>segments. Inr (itinerary, segments))))"

fun elems :: "jsval \<Rightarrow> jsval list" where
  "elems (JArr xs) = xs"
| "elems v = []"

text \<open>\<^verbatim>\<open>segments && Array.isArray(segments) && segments.length > 0\<close>.\<close>

definition suppliedSegments :: "jsval \<Rightarrow> bool" where
  "suppliedSegments segments = (truthy segments \<and> isArray segments \<and> 0 < length (elems segments))"

text \<open>\<^verbatim>\<open>segments.map((segment, index) => validateSegment(segment).then(...))\<close>.\<close>

definition validateAll :: "env \<Rightarrow> jsval list \<Rightarrow> (nat \<times> segment_validation) list io" where
  "validateAll env segs =
     promiseAll (race env)
       (map (\<lambda>(index, segment).
               andThen (validateSegment env segment) (\<lambda>result. ret (index, result)))
            (zip [0..<length segs] segs))"

definition detailJson :: "nat \<times> segment_validation \<Rightarrow> jsval" where
  "detailJson seg =
     JObj [(''segment_index'', JNum (Fin (of_nat (fst seg)))),
           (''errors'', JArr (map JStr (errors (snd seg))))]"

text \<open>
  The validation block: \<open>Some\<close> of the answer it returns with, \<open>None\<close> when the route
  goes on to create.
\<close>

definition validationPhase :: "env \<Rightarrow> jsval \<Rightarrow> reply option io" where
  "validationPhase env segments =
     (if suppliedSegments segments then
        andThen (validateAll env (elems segments)) (\<lambda>validationResults.
          (let invalidSegments = filter (\<lambda>r. \<not> valid (snd r)) validationResults
           in if 0 < length invalidSegments then
                ret (Some (Reply 400
                       (JObj [(''error'', JStr ''Segment validation failed''),
                              (''details'', JArr (map detailJson invalidSegments))])))
              else ret None))
      else ret None)"

definition creationPhase :: "env \<Rightarrow> jsval \<Rightarrow> jsval \<Rightarrow> reply io" where
  "creationPhase env itinerary segments =
     andThen (itinerariesPost env ''/itineraries'' itinerary) (\<lambda>createdItinerary.
     andThen
       (if suppliedSegments segments then
          andThen (lift (memberStr env createdItinerary ''id'')) (\<lambda>createdId.
            promiseAll (race env)
              (map (\<lambda>segment.
                      itinerariesPost env (''/itineraries/'' @ createdId @ ''/segments'') segment)
                   (elems segments)))
        else ret [])
       (\<lambda>createdSegments.
          ret (Reply 201
                 (JObj (setProps (ownProps createdItinerary)
                          [(''segments'', JArr createdSegments)])))))"

definition postItinerary :: "env \<Rightarrow> jsval \<Rightarrow> reply \<times> request list" where
  "postItinerary env reqBody =
     catch500 ''Failed to create composite itinerary''
       (andThen (lift (destructureBody reqBody)) (\<lambda>(itinerary, segments).
          if \<not> truthy itinerary then
            ret (Reply 400 (JObj [(''error'', JStr ''Missing itinerary data'')]))
          else
            andThen (validationPhase env segments) (\<lambda>early.
              case early of
                Some r \<Rightarrow> ret r
              | None \<Rightarrow> creationPhase env itinerary segments)))"

subsection \<open>\<^verbatim>\<open>GET /composite/quotes/:itinerary_id\<close>\<close>

record quote =
  segment_id :: jsval
  city_name :: jsval
  lodging_class :: jsval
  nights :: number
  price_per_night :: number
  currency :: jsval
  quote_total :: number

definition quoteJson :: "quote \<Rightarrow> jsval" where
  "quoteJson q =
     JObj [(''segment_id'', segment_id q), (''city_name'', city_name q),
           (''lodging_class'', lodging_class q), (''nights'', JNum (nights q)),
           (''price_per_night'', JNum (price_per_night q)), (''currency'', currency q),
           (''total'', JNum (quote_total q))]"

text \<open>\<^verbatim>\<open>Math.ceil((endDate.getTime() - startDate.getTime()) / (1000 * 60 * 60 * 24))\<close>.\<close>

definition nightsBetween :: "number \<Rightarrow> number \<Rightarrow> number" where
  "nightsBetween startDate endDate = ceilNum (divBy (subNum endDate startDate) msPerDay)"

text \<open>\<^verbatim>\<open>Array.isArray(rates) && rates.length > 0 ? rates[0] : null\<close>.\<close>

fun firstRate :: "jsval \<Rightarrow> jsval" where
  "firstRate (JArr (r # rs)) = r"
| "firstRate v = JNull"

text \<open>\<^verbatim>\<open>rate ? parseFloat(rate.price_per_night) : 0\<close>.\<close>

definition priceOf :: "env \<Rightarrow> jsval \<Rightarrow> js_error + number" where
  "priceOf env rate =
     (if truthy rate
      then bindE (getProp rate ''price_per_night'') (parseFloat (hostNumStr env))
      else Inr (Fin 0))"

text \<open>The callback of \<^verbatim>\<open>segments.map\<close> after its two reads.\<close>

definition computeQuote :: "env \<Rightarrow> jsval \<Rightarrow> jsval \<Rightarrow> jsval \<Rightarrow> js_error + quote" where
  "computeQuote env segment city rates =
     bindE (getProp segment ''start_date'') (\<lambda>start_date.
     bindE (newDate (hostDateParse env) (hostNumStr env) start_date) (\<lambda>startDate.
     bindE (getProp segment ''end_date'') (\<lambda>end_date.
     bindE (newDate (hostDateParse env) (hostNumStr env) end_date) (\<lambda>endDate.
     bindE (priceOf env (firstRate rates)) (\<lambda>pricePerNight.
     bindE (getProp segment ''id'') (\<lambda>sid.
     bindE (getProp city ''name'') (\<lambda>name.
     bindE (getProp segment ''lodging_class'') (\<lambda>lc.
     bindE (getProp city ''currency'') (\<lambda>cur.
       Inr \<lparr>segment_id = sid, city_name = name, lodging_class = lc,
            nights = nightsBetween startDate endDate,
            price_per_night = pricePerNight, currency = cur,
            quote_total = mulNum pricePerNight (nightsBetween startDate endDate)\<rparr>)))))))))"

definition segmentQuote :: "env \<Rightarrow> jsval \<Rightarrow> quote io" where
  "segmentQuote env segment =
     andThen (cityAndRates env segment) (\<lambda>(city, rates).
       lift (computeQuote env segment city rates))"

text \<open>\<^verbatim>\<open>segmentQuotes.reduce((sum, quote) => sum + quote.total, 0)\<close>.\<close>

definition grandTotal :: "quote list \<Rightarrow> number" where
  "grandTotal segmentQuotes = foldl (\<lambda>sum q. addNum sum (quote_total q)) (Fin 0) segmentQuotes"

definition getQuotes :: "env \<Rightarrow> string \<Rightarrow> reply \<times> request list" where
  "getQuotes env itineraryId =
     catch500 ''Failed to calculate quotes''
       (andThen (itinerariesGet env (''/itineraries/'' @ itineraryId @ ''/segments'')) (\<lambda>segments.
        andThen (lift (getProp segments ''length'')) (\<lambda>len.
          if strictEquals len (JNum (Fin 0)) then
            ret (Reply 200 (JObj [(''total'', JNum (Fin 0)), (''segments'', JArr [])]))
          else
            andThen (lift (asArray ''segments'' ''map'' segments)) (\<lambda>segs.
            andThen (promiseAll (race env) (map (segmentQuote env) segs)) (\<lambda>segmentQuotes.
              ret (Reply 200
                     (JObj [(''itinerary_id'', JStr itineraryId),
                            (''total'', JNum (grandTotal segmentQuotes)),
                            (''segments'', JArr (map quoteJson segmentQuotes))])))))))"

section \<open>Notions used in the statements\<close>

text \<open>A list of issued requests that holds no write.\<close>

definition onlyReads :: "request list \<Rightarrow> bool" where
  "onlyReads t = list_all (\<lambda>rq. verb rq = GET) t"

text \<open>
  The two representations of a lodging class: a bare string, or an object whose
  \<^verbatim>\<open>class_name\<close> is that string. \<open>sameClass\<close> relates a list element to itself and
  to its other representation; \<open>classNameOf\<close> is the name an element stands for.
\<close>

definition sameClass :: "jsval \<Rightarrow> jsval \<Rightarrow> bool" where
  "sameClass a b =
     (a = b
      \<or> (case (a, b) of
            (JStr s, JObj fs) \<Rightarrow> map_of fs ''class_name'' = Some (JStr s)
          | (JObj fs, JStr s) \<Rightarrow> map_of fs ''class_name'' = Some (JStr s)
          | _ \<Rightarrow> False))"

fun classNameOf :: "jsval \<Rightarrow> string option" where
  "classNameOf (JStr s) = Some s"
| "classNameOf (JObj fs) =
     (case map_of fs ''class_name'' of Some (JStr s) \<Rightarrow> Some s | _ \<Rightarrow> None)"
| "classNameOf v = None"

definition lodgingClassesRequest :: "env \<Rightarrow> request" where
  "lodgingClassesRequest env = Request GET (PRICING_URL env @ ''/lodging-classes'') None"

text \<open>The environment in which the pricing service answers the list \<open>cs\<close>.\<close>

definition withClasses :: "env \<Rightarrow> jsval list \<Rightarrow> env" where
  "withClasses env cs =
     env\<lparr>fetch := (fetch env)(lodgingClassesRequest env := Response 200 ''OK'' (Inr (JArr cs)))\<rparr>"

fun isObject :: "jsval \<Rightarrow> bool" where
  "isObject (JObj fs) = True"
| "isObject v = False"

text \<open>
  The finite doubles: an integer of less than 53 bits times a power of two from
  \<open>2^(-1074)\<close> to \<open>2^971\<close>.
\<close>

definition isDouble :: "rat \<Rightarrow> bool" where
  "isDouble d = (\<exists>m k. d = of_int m * 2 powi k \<and> \<bar>m\<bar> < 2 ^ 53 \<and> - 1074 \<le> k \<and> k \<le> 971)"





subsection \<open>An example environment\<close>

text \<open>
  Three services with one city (\<^verbatim>\<open>paris\<close>), two lodging classes in the two
  representations, rates for five classes (\<^verbatim>\<open>100.00\<close>, \<^verbatim>\<open>-100.00\<close>, \<^verbatim>\<open>99.50\<close>,
  \<^verbatim>\<open>1e-1\<close> and no rate at all), five itineraries, and a destinations service that
  fails with status 500 on the city \<^verbatim>\<open>1404\<close> and with status 503 on the city
  \<^verbatim>\<open>rome\<close>. Everything else is answered 404.
\<close>

definition demoFetch :: "request \<Rightarrow> fetch_result" where
  "demoFetch rq =
     (if rq = Request GET ''http://itineraries/itineraries/it1/segments'' None then
        Response 200 ''OK''
          (Inr (JArr [JObj [(''id'', JStr ''s1''), (''city_id'', JStr ''paris''),
                            (''lodging_class'', JStr ''standard''),
                            (''start_date'', JStr ''2024-01-01''),
                            (''end_date'', JStr ''2024-01-04'')]]))
      else if rq = Request GET ''http://itineraries/itineraries/it2/segments'' None then
        Response 200 ''OK''
          (Inr (JArr [JObj [(''id'', JStr ''s1''), (''city_id'', JStr ''paris''),
                            (''lodging_class'', JStr ''standard''),
                            (''start_date'', JStr ''2024-01-01''),
                            (''end_date'', JStr ''2024-01-04'')],
                      JObj [(''id'', JStr ''s2''), (''city_id'', JStr ''paris''),
                            (''lodging_class'', JStr ''standard''),
                            (''start_date'', JStr ''2024-01-03''),
                            (''end_date'', JStr ''2024-01-01'')]]))
      else if rq = Request GET ''http://itineraries/itineraries/it3/segments'' None then
        Response 200 ''OK''
          (Inr (JArr [JObj [(''id'', JStr ''s3''), (''city_id'', JStr ''paris''),
                            (''lodging_class'', JStr ''promo''),
                            (''start_date'', JStr ''2024-01-03''),
                            (''end_date'', JStr ''2024-01-01'')]]))
      else if rq = Request GET ''http://itineraries/itineraries/it4/segments'' None then
        Response 200 ''OK''
          (Inr (JArr [JObj [(''id'', JStr ''s1''), (''city_id'', JStr ''paris''),
                            (''lodging_class'', JStr ''standard''),
                            (''start_date'', JStr ''2024-01-01''),
                            (''end_date'', JStr ''2024-01-04'')],
                      JObj [(''id'', JStr ''s2''), (''city_id'', JStr ''paris''),
                            (''lodging_class'', JStr ''suite''),
                            (''start_date'', JStr ''2024-03-01T12:00:00.000Z''),
                            (''end_date'', JStr ''2024-03-04T00:00:00.000Z'')],
                      JObj [(''id'', JStr ''s3''), (''city_id'', JStr ''paris''),
                            (''lodging_class'', JStr ''hostel''),
                            (''start_date'', JStr ''2024-01-01''),
                            (''end_date'', JStr ''2024-01-02'')],
                      JObj [(''id'', JStr ''s4''), (''city_id'', JStr ''paris''),
                            (''lodging_class'', JStr ''dorm''),
                            (''start_date'', JStr ''2024-02-27''),
                            (''end_date'', JStr ''2024-03-01'')]]))
      else if rq = Request GET ''http://itineraries/itineraries/it0/segments'' None then
        Response 200 ''OK'' (Inr (JArr []))
      else if rq = Request GET ''http://itineraries/itineraries/it1'' None then
        Response 200 ''OK'' (Inr (JObj [(''id'', JStr ''it1''), (''name'', JStr ''Trip'')]))
      else if rq = Request GET ''http://destinations/cities/paris'' None then
        Response 200 ''OK''
          (Inr (JObj [(''id'', JStr ''paris''), (''name'', JStr ''Paris''),
                      (''country_code'', JStr ''FR''), (''currency'', JStr ''EUR'')]))
      else if rq = Request GET ''http://destinations/cities/1404'' None then
        Response 500 ''Internal Server Error'' (Inr (JObj [(''error'', JStr ''database down'')]))
      else if rq = Request GET ''http://destinations/cities/rome'' None then
        Response 503 ''Service Unavailable'' (Inr (JObj [(''error'', JStr ''overloaded'')]))
      else if rq = Request GET ''http://destinations/cities?limit=100'' None then
        Response 200 ''OK'' (Inr (JArr [JObj [(''id'', JStr ''c1'')], JObj [(''id'', JStr ''c2'')]]))
      else if rq = Request GET ''http://destinations/seasons?limit=100'' None then
        Response 200 ''OK'' (Inr (JObj [(''data'', JArr [JObj [(''city_id'', JStr ''c1'')]])]))
      else if rq = Request GET ''http://pricing/rates?city_id=paris&lodging_class=standard'' None then
        Response 200 ''OK'' (Inr (JArr [JObj [(''price_per_night'', JStr ''100.00'')]]))
      else if rq = Request GET ''http://pricing/rates?city_id=paris&lodging_class=promo'' None then
        Response 200 ''OK'' (Inr (JArr [JObj [(''price_per_night'', JStr ''-100.00'')]]))
      else if rq = Request GET ''http://pricing/rates?city_id=paris&lodging_class=suite'' None then
        Response 200 ''OK''
          (Inr (JArr [JObj [(''price_per_night'', JStr ''99.50''), (''currency'', JStr ''EUR'')],
                      JObj [(''price_per_night'', JStr ''120.00''), (''currency'', JStr ''EUR'')]]))
      else if rq = Request GET ''http://pricing/rates?city_id=paris&lodging_class=hostel'' None then
        Response 200 ''OK'' (Inr (JArr []))
      else if rq = Request GET ''http://pricing/rates?city_id=paris&lodging_class=dorm'' None then
        Response 200 ''OK'' (Inr (JArr [JObj [(''price_per_night'', JStr ''1e-1'')]]))
      else if rq = Request GET ''http://pricing/lodging-classes'' None then
        Response 200 ''OK'' (Inr (JArr [JStr ''standard'', JObj [(''class_name'', JStr ''deluxe'')]]))
      else Response 404 ''Not Found'' (Inr (JObj [(''error'', JStr ''Not Found'')])))"

definition demoEnv :: env where
  "demoEnv =
     \<lparr>fetch = demoFetch, DESTINATIONS_URL = ''http://destinations'',
      PRICING_URL = ''http://pricing'', ITINERARIES_URL = ''http://itineraries'',
      hostDateParse = (\<lambda>s. None), hostNumStr = (\<lambda>a. []), race = (\<lambda>es. 0)\<rparr>"

text \<open>
  The same services when the destinations service lists one city whose identifier is
  \<^verbatim>\<open>constructor\<close>, and no season.
\<close>

definition protoFetch :: "request \<Rightarrow> fetch_result" where
  "protoFetch rq =
     (if rq = Request GET ''http://destinations/cities?limit=100'' None then
        Response 200 ''OK'' (Inr (JArr [JObj [(''id'', JStr ''constructor'')]]))
      else if rq = Request GET ''http://destinations/seasons?limit=100'' None then
        Response 200 ''OK'' (Inr (JArr []))
      else demoFetch rq)"

definition protoEnv :: env where
  "protoEnv = demoEnv\<lparr>fetch := protoFetch\<rparr>"

section \<open>Basic facts\<close>

lemma andThen_Inr [simp]: "andThen (Inr x, t) f = (fst (f x), t @ snd (f x))"
  by (simp add: andThen_def split: prod.splits)

lemma andThen_Inl [simp]: "andThen (Inl e, t) f = (Inl e, t)"
  by (simp add: andThen_def)

lemma andThen_ret [simp]: "andThen (ret x) f = f x"
  by (simp add: ret_def)

lemma andThen_lift_Inr [simp]: "andThen (lift (Inr x)) f = f x"
  by (simp add: lift_def)

lemma andThen_lift_Inl [simp]: "andThen (lift (Inl e)) f = (Inl e, [])"
  by (simp add: lift_def)

lemma bindE_Inr [simp]: "bindE (Inr x) f = f x"
  by (simp add: bindE_def)

lemma bindE_Inl [simp]: "bindE (Inl e) f = Inl e"
  by (simp add: bindE_def)

lemma fst_andThen: "fst (andThen m f) = (case fst m of Inl e \<Rightarrow> Inl e | Inr x \<Rightarrow> fst (f x))"
  by (cases m) (auto simp: andThen_def split: sum.splits prod.splits)

lemma snd_andThen:
  "snd (andThen m f) = (case fst m of Inl e \<Rightarrow> snd m | Inr x \<Rightarrow> snd m @ snd (f x))"
  by (cases m) (auto simp: andThen_def split: sum.splits prod.splits)


lemma inherited_class_name [simp]: "inherited ''class_name'' = JUndefined"
  by (simp add: inherited_def objectPrototypeKeys_def)

lemma demoEnv_simps [simp]:
  "fetch demoEnv = demoFetch"
  "DESTINATIONS_URL demoEnv = ''http://destinations''"
  "PRICING_URL demoEnv = ''http://pricing''"
  "ITINERARIES_URL demoEnv = ''http://itineraries''"
  "hostDateParse demoEnv = (\<lambda>s. None)"
  "hostNumStr demoEnv = (\<lambda>a. [])"
  "race demoEnv = (\<lambda>es. 0)"
  by (simp_all add: demoEnv_def)

subsection \<open>Requests issued by the validation helpers\<close>

lemma onlyReads_Nil [simp]: "onlyReads []"
  by (simp add: onlyReads_def)

lemma onlyReads_append [simp]: "onlyReads (a @ b) = (onlyReads a \<and> onlyReads b)"
  by (simp add: onlyReads_def)

lemma onlyReads_andThen:
  "onlyReads (snd m) \<Longrightarrow> (\<And>x. onlyReads (snd (f x))) \<Longrightarrow> onlyReads (snd (andThen m f))"
  by (simp add: snd_andThen split: sum.splits)

lemma onlyReads_httpGet [simp]: "onlyReads (snd (httpGet env b p))"
  by (simp add: httpGet_def onlyReads_def Let_def)

lemma onlyReads_lift [simp]: "onlyReads (snd (lift r))"
  by (simp add: lift_def)

lemma onlyReads_ret [simp]: "onlyReads (snd (ret r))"
  by (simp add: ret_def)

lemma onlyReads_validateCityExists [simp]: "onlyReads (snd (validateCityExists env c))"
proof -
  have "snd (validateCityExists env c) = snd (destinationsGet env (''/cities/'' @ c))"
    by (simp add: validateCityExists_def split: prod.splits sum.splits)
  then show ?thesis by (simp add: destinationsGet_def)
qed

lemma onlyReads_validateLodgingClass [simp]: "onlyReads (snd (validateLodgingClass env c))"
  unfolding validateLodgingClass_def
  by (auto simp: pricingGet_def intro!: onlyReads_andThen)

lemma onlyReads_cityErrors [simp]: "onlyReads (snd (cityErrors env s))"
  unfolding cityErrors_def
  by (intro onlyReads_andThen) (simp_all add: onlyReads_andThen)

lemma onlyReads_lodgingErrors [simp]: "onlyReads (snd (lodgingErrors env s))"
  unfolding lodgingErrors_def
  by (intro onlyReads_andThen) (simp_all add: onlyReads_andThen)

lemma onlyReads_validateSegment [simp]: "onlyReads (snd (validateSegment env s))"
  unfolding validateSegment_def
  by (intro onlyReads_andThen) (simp_all add: Let_def)

lemma snd_promiseAll [simp]: "snd (promiseAll rc ms) = concat (map snd ms)"
  by (simp add: promiseAll_def Let_def)

lemma onlyReads_concat: "(\<And>t. t \<in> set ts \<Longrightarrow> onlyReads t) \<Longrightarrow> onlyReads (concat ts)"
  by (induction ts) simp_all

lemma onlyReads_validateAll [simp]: "onlyReads (snd (validateAll env segs))"
  unfolding validateAll_def
  by (auto intro!: onlyReads_concat onlyReads_andThen)

subsection \<open>\<^verbatim>\<open>Promise.all\<close>\<close>

lemma rejections_map_Inr [simp]: "rejections (map Inr xs) = []"
  by (induction xs) simp_all

lemma fulfilled_map_Inr [simp]: "fulfilled (map Inr xs) = xs"
  by (induction xs) simp_all

lemma promiseAll_all_fulfilled:
  "map fst ms = map Inr xs \<Longrightarrow> fst (promiseAll rc ms) = Inr xs"
  by (simp add: promiseAll_def Let_def)

lemma rejections_Nil_iff: "rejections rs = [] \<Longrightarrow> rs = map Inr (fulfilled rs)"
  by (induction rs rule: rejections.induct) simp_all

lemma promiseAll_Inr:
  assumes "fst (promiseAll rc ms) = Inr xs"
  shows "map fst ms = map Inr xs"
proof -
  have "rejections (map fst ms) = []" and "xs = fulfilled (map fst ms)"
    using assms by (auto simp: promiseAll_def Let_def split: if_splits)
  then show ?thesis
    using rejections_Nil_iff [of "map fst ms"] by simp
qed

lemma promiseAll_Inr_nth:
  assumes "fst (promiseAll rc ms) = Inr xs"
  shows "length xs = length ms" and "i < length ms \<Longrightarrow> fst (ms ! i) = Inr (xs ! i)"
proof -
  have eq: "map fst ms = map Inr xs"
    using assms by (rule promiseAll_Inr)
  show "length xs = length ms"
    using arg_cong [OF eq, of length] by simp
  then show "i < length ms \<Longrightarrow> fst (ms ! i) = Inr (xs ! i)"
    using arg_cong [OF eq, of "\<lambda>l. l ! i"] by simp
qed

section \<open>Rounding to doubles\<close>

text \<open>
  \<open>nearest q\<close> is a closest double to \<open>q\<close>: no double lies nearer. So a double is
  rounded to itself, and rounding keeps the sign and never crosses a double.
\<close>

subsection \<open>No double lies nearer\<close>

lemma roundEven_closest: "\<bar>of_int (roundEven x) - x\<bar> \<le> \<bar>of_int j - x\<bar>"
proof -
  define f where "f = \<lfloor>x\<rfloor>"
  define fr jr rr :: rat where "fr = of_int f" and "jr = of_int j" and "rr = of_int (roundEven x)"
  have f1: "fr \<le> x" and f2: "x < fr + 1"
    unfolding f_def fr_def by linarith+
  have "roundEven x = f \<and> x - of_int f \<le> 1 / 2 \<or> roundEven x = f + 1 \<and> 1 / 2 \<le> x - of_int f"
    unfolding roundEven_def Let_def f_def [symmetric] by auto
  then have r: "rr = fr \<and> x - fr \<le> 1 / 2 \<or> rr = fr + 1 \<and> 1 / 2 \<le> x - fr"
    unfolding rr_def fr_def by auto
  have "j \<le> f \<or> f + 1 \<le> j" by linarith
  then have j: "jr \<le> fr \<or> fr + 1 \<le> jr"
    unfolding jr_def fr_def by (metis of_int_le_iff of_int_add of_int_1)
  have "\<bar>rr - x\<bar> \<le> \<bar>jr - x\<bar>"
    using r j f1 f2 by linarith
  then show ?thesis
    unfolding rr_def jr_def .
qed

lemma binade_bounds:
  assumes "q \<noteq> 0"
  shows "2 powi (binade q) \<le> \<bar>q\<bar>" and "\<bar>q\<bar> < 2 powi (binade q + 1)"
proof -
  have both: "2 powi (binade q) \<le> \<bar>q\<bar> \<and> \<bar>q\<bar> < 2 powi (binade q + 1)"
  proof (cases "1 \<le> \<bar>q\<bar>")
    case True
    define n where "n = \<lfloor>\<bar>q\<bar>\<rfloor>"
    have n: "0 < n" using True unfolding n_def by linarith
    have b: "binade q = bitlen n - 1" using True by (simp add: binade_def n_def)
    from bitlen_bounds [OF n] have lo: "2 ^ nat (bitlen n - 1) \<le> n" and hi: "n < 2 ^ nat (bitlen n)"
      by simp_all
    have bl: "1 \<le> bitlen n" using n bitlen_eq_zero_iff [of n] bitlen_nonneg [of n] by linarith
    have "(2 :: rat) powi (bitlen n - 1) = 2 ^ nat (bitlen n - 1)"
      using bl by (simp add: power_int_def)
    also have "\<dots> = of_int (2 ^ nat (bitlen n - 1))" by simp
    also have "\<dots> \<le> of_int n" using lo by (simp only: of_int_le_iff)
    also have "\<dots> \<le> \<bar>q\<bar>" unfolding n_def by linarith
    finally have A: "2 powi (binade q) \<le> \<bar>q\<bar>" using b by simp
    have "n + 1 \<le> 2 ^ nat (bitlen n)" using hi by linarith
    then have "(of_int (n + 1) :: rat) \<le> of_int (2 ^ nat (bitlen n))" by (simp only: of_int_le_iff)
    moreover have "\<bar>q\<bar> < of_int (n + 1)" unfolding n_def by linarith
    ultimately have "\<bar>q\<bar> < 2 ^ nat (bitlen n)" by simp
    moreover have "(2 :: rat) powi (bitlen n - 1 + 1) = 2 ^ nat (bitlen n)"
      using bl by (simp add: power_int_def)
    ultimately have B: "\<bar>q\<bar> < 2 powi (binade q + 1)" using b by simp
    show ?thesis using A B ..
  next
    case False
    define r where "r = 1 / \<bar>q\<bar>"
    have q0: "0 < \<bar>q\<bar>" using assms by simp
    have r1: "1 < r" using False q0 unfolding r_def by (simp add: field_simps)
    define m where "m = \<lceil>r\<rceil> - 1"
    have m: "0 < m" using r1 unfolding m_def by linarith
    have b: "binade q = - bitlen m" using False by (simp add: binade_def m_def r_def)
    from bitlen_bounds [OF m] have lo: "2 ^ nat (bitlen m - 1) \<le> m" and hi: "m < 2 ^ nat (bitlen m)"
      by simp_all
    have bl: "1 \<le> bitlen m" using m bitlen_eq_zero_iff [of m] bitlen_nonneg [of m] by linarith
    have "m + 1 \<le> 2 ^ nat (bitlen m)" using hi by linarith
    then have "(of_int (m + 1) :: rat) \<le> of_int (2 ^ nat (bitlen m))" by (simp only: of_int_le_iff)
    moreover have "r \<le> of_int (m + 1)" unfolding m_def by simp
    ultimately have rle: "r \<le> 2 ^ nat (bitlen m)" by simp
    have "(of_int (2 ^ nat (bitlen m - 1)) :: rat) \<le> of_int m" using lo by (simp only: of_int_le_iff)
    then have "(2 :: rat) ^ nat (bitlen m - 1) \<le> of_int m" by simp
    moreover have "of_int m < r" unfolding m_def by linarith
    ultimately have rgt: "2 ^ nat (bitlen m - 1) < r" by linarith
    have p1: "(2 :: rat) powi (- bitlen m) = 1 / 2 ^ nat (bitlen m)"
      using bl by (simp add: power_int_def field_simps)
    have p2: "(2 :: rat) powi (- bitlen m + 1) = 1 / 2 ^ nat (bitlen m - 1)"
      using bl by (simp add: power_int_def field_simps)
    have A: "2 powi (binade q) \<le> \<bar>q\<bar>"
      unfolding b p1 using rle q0 unfolding r_def by (simp add: field_simps)
    have B: "\<bar>q\<bar> < 2 powi (binade q + 1)"
      unfolding b p2 using rgt q0 unfolding r_def by (simp add: field_simps)
    show ?thesis using A B ..
  qed
  show "2 powi (binade q) \<le> \<bar>q\<bar>" and "\<bar>q\<bar> < 2 powi (binade q + 1)"
    using both by simp_all
qed


lemma two_powi_pos [simp]: "0 < (2 :: rat) powi k"
  by (simp add: power_int_def)

lemma two_powi_add: "(2 :: rat) powi (a + b) = 2 powi a * 2 powi b"
  by (rule power_int_add) simp

lemma two_powi_nat: "(2 :: rat) powi (int n) = 2 ^ n"
  by (simp add: power_int_def)

lemma nearest_multiple:
  assumes "q \<noteq> 0"
  shows "\<bar>nearest q - q\<bar> \<le> \<bar>of_int j * 2 powi (max (binade q) (- 1022) - 52) - q\<bar>"
proof -
  define u :: rat where "u = 2 powi (max (binade q) (- 1022) - 52)"
  have u: "0 < u" unfolding u_def by simp
  have n: "nearest q = of_int (roundEven (q / u)) * u"
    using assms by (simp add: nearest_def Let_def u_def)
  have "\<bar>of_int (roundEven (q / u)) * u - q\<bar> = \<bar>of_int (roundEven (q / u)) - q / u\<bar> * u"
    using u by (simp add: abs_mult [symmetric] field_simps del: abs_mult)
  also have "\<dots> \<le> \<bar>of_int j - q / u\<bar> * u"
    using roundEven_closest [of "q / u" j] u by (simp add: mult_right_mono)
  also have "\<dots> = \<bar>of_int j * u - q\<bar>"
    using u by (simp add: abs_mult [symmetric] field_simps del: abs_mult)
  finally show ?thesis
    unfolding n u_def .
qed

lemma nearest_closest:
  assumes "isDouble d"
  shows "\<bar>nearest q - q\<bar> \<le> \<bar>d - q\<bar>"
proof (cases "q = 0")
  case True
  then show ?thesis by (simp add: nearest_def)
next
  case False
  from assms obtain m k where d: "d = of_int m * 2 powi k" and m: "\<bar>m\<bar> < 2 ^ 53" and k: "- 1074 \<le> k"
    unfolding isDouble_def by blast
  define e where "e = max (binade q) (- 1022)"
  define u :: rat where "u = 2 powi (e - 52)"
  have near: "\<bar>nearest q - q\<bar> \<le> \<bar>of_int j * u - q\<bar>" for j
    using nearest_multiple [OF False, of j] unfolding u_def e_def .
  show ?thesis
  proof (cases "e - 52 \<le> k")
    case True
    define n where "n = nat (k - (e - 52))"
    have "k = (e - 52) + int n" using True unfolding n_def by simp
    then have "(2 :: rat) powi k = 2 ^ n * u"
      unfolding u_def by (simp add: two_powi_add two_powi_nat)
    then have "d = of_int (m * 2 ^ n) * u"
      unfolding d by simp
    then show ?thesis using near [of "m * 2 ^ n"] by simp
  next
    case False
    then have ke: "k \<le> e - 53" by simp
    then have "- 1022 < e" using k by simp
    then have e: "e = binade q" unfolding e_def by simp
    have lo: "2 powi e \<le> \<bar>q\<bar>"
      unfolding e using binade_bounds(1) [OF \<open>q \<noteq> 0\<close>] .
    have "\<bar>m\<bar> \<le> 2 ^ 53" using m by simp
    then have "(of_int \<bar>m\<bar> :: rat) \<le> of_int (2 ^ 53)" by (simp only: of_int_le_iff)
    then have m': "\<bar>of_int m :: rat\<bar> \<le> 2 powi 53" by simp
    have "(of_int \<bar>m\<bar> :: rat) < of_int (2 ^ 53)" using m by (simp only: of_int_less_iff)
    then have m'': "\<bar>of_int m :: rat\<bar> < 2 powi 53" by simp
    have "\<bar>d\<bar> = \<bar>of_int m\<bar> * 2 powi k"
      unfolding d by (simp add: abs_mult)
    also have "\<dots> < 2 powi 53 * 2 powi k"
      using m'' by (simp add: mult_strict_right_mono)
    also have "\<dots> = 2 powi (53 + k)"
      by (simp add: two_powi_add)
    also have "\<dots> \<le> 2 powi e"
      using ke by (intro power_int_increasing) simp_all
    finally have dlt: "\<bar>d\<bar> < 2 powi e" .
    have pe: "(2 :: rat) powi e = 2 ^ 52 * u"
    proof -
      have "e = 52 + (e - 52)" by simp
      then have "(2 :: rat) powi e = 2 powi 52 * 2 powi (e - 52)"
        by (metis two_powi_add)
      then show ?thesis unfolding u_def by simp
    qed
    show ?thesis
    proof (cases "0 < q")
      case True
      have "\<bar>nearest q - q\<bar> \<le> \<bar>of_int (2 ^ 52) * u - q\<bar>" by (rule near)
      also have "of_int (2 ^ 52) * u = 2 powi e" using pe by simp
      finally show ?thesis using lo dlt True by linarith
    next
      case F: False
      then have neg: "q < 0" using \<open>q \<noteq> 0\<close> by simp
      have "\<bar>nearest q - q\<bar> \<le> \<bar>of_int (- (2 ^ 52)) * u - q\<bar>" by (rule near)
      also have "of_int (- (2 ^ 52)) * u = - (2 powi e)" using pe by simp
      finally show ?thesis using lo dlt neg by linarith
    qed
  qed
qed

lemma isDouble_zero [simp]: "isDouble 0"
  unfolding isDouble_def by (rule exI [of _ 0], rule exI [of _ 0]) simp

lemma nearest_double: "isDouble d \<Longrightarrow> nearest d = d"
  using nearest_closest [of d d] by simp

lemma nearest_abs_le: "\<bar>nearest q\<bar> \<le> 2 * \<bar>q\<bar>"
  using nearest_closest [OF isDouble_zero, of q] by linarith

lemma nearest_nonneg: "0 \<le> q \<Longrightarrow> 0 \<le> nearest q"
  using nearest_closest [OF isDouble_zero, of q] by linarith



lemma isDouble_bound:
  assumes "isDouble d"
  shows "\<bar>d\<bar> < 2 ^ 1024"
proof -
  from assms obtain m k where d: "d = of_int m * 2 powi k" and m: "\<bar>m\<bar> < 2 ^ 53" and k: "k \<le> 971"
    unfolding isDouble_def by blast
  have "(of_int \<bar>m\<bar> :: rat) < of_int (2 ^ 53)" using m by (simp only: of_int_less_iff)
  then have m': "\<bar>of_int m :: rat\<bar> < 2 powi 53" by simp
  have "\<bar>d\<bar> = \<bar>of_int m\<bar> * 2 powi k"
    unfolding d by (simp add: abs_mult)
  also have "\<dots> < 2 powi 53 * 2 powi k"
    using m' by (simp add: mult_strict_right_mono)
  also have "\<dots> = 2 powi (53 + k)"
    by (simp add: two_powi_add)
  also have "\<dots> \<le> 2 powi 1024"
    using k by (intro power_int_increasing) simp_all
  also have "(2 :: rat) powi 1024 = 2 ^ 1024"
    by (rule power_int_numeral)
  finally show ?thesis .
qed

lemma roundDouble_double: "isDouble d \<Longrightarrow> roundDouble d = Fin d"
  using isDouble_bound [of d] by (simp add: roundDouble_def nearest_double Let_def del: power_numeral)

lemma roundDouble_small:
  assumes "\<bar>q\<bar> \<le> 2 ^ 1000"
  shows "roundDouble q = Fin (nearest q)"
proof -
  have "\<bar>nearest q\<bar> \<le> 2 * \<bar>q\<bar>" by (rule nearest_abs_le)
  also have "\<dots> \<le> 2 * 2 ^ 1000" using assms by simp
  also have "\<dots> = (2 :: rat) ^ 1001" by simp
  also have "\<dots> < 2 ^ 1024" by (rule power_strict_increasing) simp_all
  finally show ?thesis
    by (simp add: roundDouble_def Let_def del: power_numeral)
qed

lemma isDouble_int:
  assumes "\<bar>n\<bar> < 2 ^ 53"
  shows "isDouble (of_int n)"
  unfolding isDouble_def using assms by (intro exI [of _ n] exI [of _ 0]) simp

lemma isDouble_dyadic:
  assumes "\<bar>m\<bar> < 2 ^ 53" and "k \<le> 1074"
  shows "isDouble (of_int m / 2 ^ k)"
  unfolding isDouble_def using assms
  by (intro exI [of _ m] exI [of _ "- int k"]) (simp add: power_int_minus two_powi_nat field_simps)

subsection \<open>Whole days\<close>


subsection \<open>Computing a rounding\<close>

lemma binade_unique:
  assumes "2 powi e \<le> \<bar>q\<bar>" and "\<bar>q\<bar> < 2 powi (e + 1)"
  shows "binade q = e"
proof -
  have "0 < (2 :: rat) powi e" by simp
  with assms(1) have "0 < \<bar>q\<bar>" by linarith
  then have q: "q \<noteq> 0" by simp
  note b = binade_bounds [OF q]
  have "\<not> binade q < e"
  proof
    assume "binade q < e"
    then have "(2 :: rat) powi (binade q + 1) \<le> 2 powi e"
      by (intro power_int_increasing) simp_all
    then show False using b(2) assms(1) by linarith
  qed
  moreover have "\<not> e < binade q"
  proof
    assume "e < binade q"
    then have "(2 :: rat) powi (e + 1) \<le> 2 powi (binade q)"
      by (intro power_int_increasing) simp_all
    then show False using b(1) assms(2) by linarith
  qed
  ultimately show ?thesis by simp
qed

lemma nearest_eval:
  assumes "2 powi e \<le> \<bar>q\<bar>" and "\<bar>q\<bar> < 2 powi (e + 1)" and "- 1022 \<le> e"
  shows "nearest q = of_int (roundEven (q / 2 powi (e - 52))) * 2 powi (e - 52)"
proof -
  have "0 < (2 :: rat) powi e" by simp
  with assms(1) have "0 < \<bar>q\<bar>" by linarith
  then have q: "q \<noteq> 0" by simp
  show ?thesis
    using q assms(3) by (simp add: nearest_def Let_def binade_unique [OF assms(1,2)] max_def)
qed



lemma roundEven_eqI: "\<bar>x - of_int n\<bar> < 1 / 2 \<Longrightarrow> roundEven x = n"
proof -
  assume a: "\<bar>x - of_int n\<bar> < 1 / 2"
  have "\<bar>of_int (roundEven x) - x\<bar> \<le> \<bar>of_int n - x\<bar>" by (rule roundEven_closest)
  then have "\<bar>(of_int (roundEven x) :: rat) - of_int n\<bar> < 1" using a by linarith
  then have "\<bar>(of_int (roundEven x - n) :: rat)\<bar> < of_int 1" by simp
  then have "\<bar>roundEven x - n\<bar> < 1" by (simp only: of_int_abs [symmetric] of_int_less_iff)
  then show ?thesis by simp
qed

lemma roundEven_tie: "x = of_int n + 1 / 2 \<Longrightarrow> roundEven x = (if even n then n else n + 1)"
proof -
  assume a: "x = of_int n + 1 / 2"
  have "\<lfloor>x\<rfloor> = n" unfolding a by (intro floor_unique) simp_all
  then show ?thesis by (simp add: roundEven_def Let_def a)
qed

lemma nearest_eqI:
  assumes "2 powi e \<le> \<bar>q\<bar>" and "\<bar>q\<bar> < 2 powi (e + 1)" and "- 1022 \<le> e"
      and "\<bar>q / 2 powi (e - 52) - of_int n\<bar> < 1 / 2"
  shows "nearest q = of_int n * 2 powi (e - 52)"
  using nearest_eval [OF assms(1,2,3)] roundEven_eqI [OF assms(4)] by simp

lemma nearest_tieI:
  assumes "2 powi e \<le> \<bar>q\<bar>" and "\<bar>q\<bar> < 2 powi (e + 1)" and "- 1022 \<le> e"
      and "q / 2 powi (e - 52) = of_int n + 1 / 2"
  shows "nearest q = of_int (if even n then n else n + 1) * 2 powi (e - 52)"
  using nearest_eval [OF assms(1,2,3)] roundEven_tie [OF assms(4)] by simp

lemma roundDouble_half: "\<bar>m\<bar> < 2 ^ 53 \<Longrightarrow> roundDouble (of_int m / 2) = Fin (of_int m / 2)"
  using isDouble_dyadic [of m 1] by (simp add: roundDouble_double)

lemma roundDouble_nearI:
  assumes "2 powi e \<le> \<bar>q\<bar>" and "\<bar>q\<bar> < 2 powi (e + 1)" and "- 1022 \<le> e" and "e \<le> 999"
      and "\<bar>q / 2 powi (e - 52) - of_int n\<bar> < 1 / 2"
  shows "roundDouble q = Fin (of_int n * 2 powi (e - 52))"
proof -
  have "(2 :: rat) powi (e + 1) \<le> 2 powi 1000"
    using assms(4) by (intro power_int_increasing) simp_all
  also have "(2 :: rat) powi 1000 = 2 ^ 1000"
    by (rule power_int_numeral)
  finally have "\<bar>q\<bar> \<le> 2 ^ 1000"
    using assms(2) by linarith
  then show ?thesis
    using nearest_eqI [OF assms(1,2,3,5)] by (simp add: roundDouble_small)
qed

lemma roundDouble_tieI:
  assumes "2 powi e \<le> \<bar>q\<bar>" and "\<bar>q\<bar> < 2 powi (e + 1)" and "- 1022 \<le> e" and "e \<le> 999"
      and "q / 2 powi (e - 52) = of_int n + 1 / 2"
  shows "roundDouble q = Fin (of_int (if even n then n else n + 1) * 2 powi (e - 52))"
proof -
  have "(2 :: rat) powi (e + 1) \<le> 2 powi 1000"
    using assms(4) by (intro power_int_increasing) simp_all
  also have "(2 :: rat) powi 1000 = 2 ^ 1000"
    by (rule power_int_numeral)
  finally have "\<bar>q\<bar> \<le> 2 ^ 1000"
    using assms(2) by linarith
  then show ?thesis
    using nearest_tieI [OF assms(1,2,3,5)] by (simp add: roundDouble_small)
qed

subsection \<open>Sign, overflow and symmetry\<close>


lemma roundEven_ge:
  assumes "of_int j \<le> x"
  shows "j \<le> roundEven x"
proof -
  have "\<bar>of_int (roundEven x) - x\<bar> \<le> \<bar>of_int j - x\<bar>" by (rule roundEven_closest)
  then have "(of_int j :: rat) \<le> of_int (roundEven x)" using assms by linarith
  then show ?thesis by (simp only: of_int_le_iff)
qed

lemma roundEven_le:
  assumes "x \<le> of_int j"
  shows "roundEven x \<le> j"
proof -
  have "\<bar>of_int (roundEven x) - x\<bar> \<le> \<bar>of_int j - x\<bar>" by (rule roundEven_closest)
  then have "(of_int (roundEven x) :: rat) \<le> of_int j" using assms by linarith
  then show ?thesis by (simp only: of_int_le_iff)
qed

lemma nearest_big:
  assumes "2 ^ 1024 \<le> q"
  shows "2 ^ 1024 \<le> nearest q"
proof -
  have q0: "0 < q"
  proof -
    have "(0 :: rat) < 2 ^ 1024" by (rule zero_less_power) simp
    then show ?thesis using assms by linarith
  qed
  then have q: "q \<noteq> 0" by simp
  define e where "e = binade q"
  define u :: rat where "u = 2 powi (e - 52)"
  have u: "0 < u" unfolding u_def by simp
  have lo: "2 powi e \<le> q"
    using binade_bounds(1) [OF q] q0 unfolding e_def by simp
  have hi: "q < 2 powi (e + 1)"
    using binade_bounds(2) [OF q] q0 unfolding e_def by simp
  have p: "(2 :: rat) powi 1024 = 2 ^ 1024" by (rule power_int_numeral)
  have e: "1024 \<le> e"
  proof (rule ccontr)
    assume "\<not> 1024 \<le> e"
    then have "(2 :: rat) powi (e + 1) \<le> 2 powi 1024"
      by (intro power_int_increasing) simp_all
    then show False using hi assms p by linarith
  qed
  have pe: "(2 :: rat) powi e = 2 ^ 52 * u"
  proof -
    have "e = 52 + (e - 52)" by simp
    then have "(2 :: rat) powi e = 2 powi 52 * 2 powi (e - 52)"
      by (metis two_powi_add)
    then show ?thesis unfolding u_def by simp
  qed
  have n: "nearest q = of_int (roundEven (q / u)) * u"
    using q e by (simp add: nearest_def Let_def e_def [symmetric] u_def max_def)
  have "of_int (2 ^ 52) \<le> q / u"
    using lo u unfolding pe by (simp add: field_simps)
  then have "2 ^ 52 \<le> roundEven (q / u)" by (rule roundEven_ge)
  then have "(of_int (2 ^ 52) :: rat) \<le> of_int (roundEven (q / u))" by (simp only: of_int_le_iff)
  then have "2 ^ 52 * u \<le> of_int (roundEven (q / u)) * u"
    using u by (simp add: mult_right_mono)
  then have "2 powi e \<le> nearest q"
    unfolding n pe .
  moreover have "(2 :: rat) powi 1024 \<le> 2 powi e"
    using e by (intro power_int_increasing) simp_all
  ultimately show ?thesis
    using p by linarith
qed

lemma roundDouble_overflow:
  assumes "2 ^ 1024 \<le> q"
  shows "roundDouble q = PosInf"
proof -
  have big: "2 ^ 1024 \<le> nearest q"
    using assms by (rule nearest_big)
  have "(0 :: rat) < 2 ^ 1024" by (rule zero_less_power) simp
  then have "0 < nearest q" using big by linarith
  then show ?thesis
    using big by (simp add: roundDouble_def Let_def del: power_numeral)
qed

lemma roundEven_minus: "roundEven (- x) = - roundEven x"
proof -
  define f where "f = \<lfloor>x\<rfloor>"
  define r where "r = x - of_int f"
  have r: "0 \<le> r" "r < 1" unfolding r_def f_def by linarith+
  have x: "x = of_int f + r" unfolding r_def by simp
  show ?thesis
  proof (cases "r = 0")
    case True
    then have "\<lfloor>- x\<rfloor> = - f" unfolding x by simp
    moreover have "\<lfloor>x\<rfloor> = f" unfolding f_def ..
    ultimately show ?thesis
      unfolding roundEven_def Let_def using True x by simp
  next
    case False
    then have r0: "0 < r" using r(1) by simp
    have fl: "\<lfloor>- x\<rfloor> = - f - 1"
      unfolding x using r0 r(2) by (intro floor_unique) simp_all
    have fx: "\<lfloor>x\<rfloor> = f" unfolding f_def ..
    have r': "- x - of_int (- f - 1) = 1 - r" unfolding x by simp
    have rr: "x - of_int f = r" unfolding x by simp
    show ?thesis
      unfolding roundEven_def Let_def fl fx r' rr using r0 r(2) by auto
  qed
qed

lemma binade_minus: "binade (- q) = binade q"
  by (simp add: binade_def)

lemma nearest_minus: "nearest (- q) = - nearest q"
  by (simp add: nearest_def Let_def binade_minus roundEven_minus)

lemma isDouble_minus: "isDouble (- d) = isDouble d"
proof -
  have "isDouble (- d)" if "isDouble d" for d
  proof -
    from that obtain m k where "d = of_int m * 2 powi k" "\<bar>m\<bar> < 2 ^ 53" "- 1074 \<le> k" "k \<le> 971"
      unfolding isDouble_def by blast
    then show ?thesis
      unfolding isDouble_def by (intro exI [of _ "- m"] exI [of _ k]) simp
  qed
  from this [of d] this [of "- d"] show ?thesis by auto
qed



subsection \<open>The result is a double\<close>

text \<open>What \<open>nearest\<close> returns is a double, unless it is \<open>2^1024\<close> or more.\<close>

lemma nearest_isDouble_pos:
  assumes q0: "0 < q" and small: "nearest q < 2 ^ 1024"
  shows "isDouble (nearest q)"
proof -
  have q: "q \<noteq> 0" using q0 by simp
  define e where "e = max (binade q) (- 1022)"
  define u :: rat where "u = 2 powi (e - 52)"
  define R where "R = roundEven (q / u)"
  have u: "0 < u" unfolding u_def by simp
  have n: "nearest q = of_int R * u"
    using q by (simp add: nearest_def Let_def e_def u_def R_def)
  have p: "(2 :: rat) powi 1024 = 2 ^ 1024" by (rule power_int_numeral)
  have pe: "(2 :: rat) powi (e + 1) = 2 ^ 53 * u"
  proof -
    have "e + 1 = 53 + (e - 52)" by simp
    then have "(2 :: rat) powi (e + 1) = 2 powi 53 * 2 powi (e - 52)"
      by (metis two_powi_add)
    then show ?thesis unfolding u_def by simp
  qed
  have "q < 2 powi (binade q + 1)"
    using binade_bounds(2) [OF q] q0 by simp
  also have "\<dots> \<le> 2 powi (e + 1)"
    unfolding e_def by (intro power_int_increasing) simp_all
  finally have "q / u \<le> of_int (2 ^ 53)"
    unfolding pe using u by (simp add: field_simps)
  then have Rhi: "R \<le> 2 ^ 53" unfolding R_def by (rule roundEven_le)
  have "of_int 0 \<le> q / u" using q0 u by simp
  then have Rlo: "0 \<le> R" unfolding R_def by (rule roundEven_ge)
  have em: "- 1022 \<le> e" unfolding e_def by simp
  have e: "e \<le> 1023"
  proof (rule ccontr)
    assume "\<not> e \<le> 1023"
    then have e1: "1024 \<le> e" by simp
    then have eb: "e = binade q" unfolding e_def by simp
    have "(2 :: rat) powi 1024 \<le> 2 powi e"
      using e1 by (intro power_int_increasing) simp_all
    also have "\<dots> \<le> q"
      using binade_bounds(1) [OF q] q0 unfolding eb by simp
    finally have "2 ^ 1024 \<le> q" unfolding p .
    then have "2 ^ 1024 \<le> nearest q" by (rule nearest_big)
    then show False using small by linarith
  qed
  show ?thesis
  proof (cases "R < 2 ^ 53")
    case True
    have "\<bar>R\<bar> < 2 ^ 53" using True Rlo by simp
    moreover have "- 1074 \<le> e - 52" using em by simp
    moreover have "e - 52 \<le> 971" using e by simp
    ultimately show ?thesis
      unfolding isDouble_def n u_def by blast
  next
    case False
    then have R: "R = 2 ^ 53" using Rhi by simp
    have "nearest q = 2 ^ 53 * u" unfolding n R by simp
    then have nq: "nearest q = 2 powi (e + 1)" unfolding pe .
    have e2: "e \<le> 1022"
    proof (rule ccontr)
      assume "\<not> e \<le> 1022"
      then have "(2 :: rat) powi 1024 \<le> 2 powi (e + 1)"
        by (intro power_int_increasing) simp_all
      then show False using small unfolding nq p by linarith
    qed
    have "(2 :: rat) powi (e + 1) = 2 powi 52 * 2 powi (e - 51)"
    proof -
      have "e + 1 = 52 + (e - 51)" by simp
      then show ?thesis by (metis two_powi_add)
    qed
    then have eq: "nearest q = of_int (2 ^ 52) * 2 powi (e - 51)"
      unfolding nq by simp
    have "\<bar>2 ^ 52 :: int\<bar> < 2 ^ 53" by simp
    moreover have "- 1074 \<le> e - 51" using em by simp
    moreover have "e - 51 \<le> 971" using e2 by simp
    ultimately show ?thesis
      unfolding isDouble_def using eq by blast
  qed
qed


lemma nearest_isDouble:
  assumes "\<bar>nearest q\<bar> < 2 ^ 1024"
  shows "isDouble (nearest q)"
proof -
  consider "q = 0" | "0 < q" | "q < 0" by linarith
  then show ?thesis
  proof cases
    case 1
    then show ?thesis by (simp add: nearest_def)
  next
    case 2
    have "nearest q < 2 ^ 1024" using assms by linarith
    with 2 show ?thesis by (rule nearest_isDouble_pos)
  next
    case 3
    then have "0 < - q" by simp
    moreover have "nearest (- q) < 2 ^ 1024"
      using assms unfolding nearest_minus by linarith
    ultimately have "isDouble (nearest (- q))" by (rule nearest_isDouble_pos)
    then show ?thesis unfolding nearest_minus isDouble_minus .
  qed
qed

text \<open>
  So \<open>roundDouble q\<close> is an infinity or a double, and no double lies nearer to \<open>q\<close>.
\<close>

lemma roundDouble_cases:
  "roundDouble q = PosInf \<or> roundDouble q = NegInf
   \<or> (\<exists>d. roundDouble q = Fin d \<and> isDouble d \<and> (\<forall>d'. isDouble d' \<longrightarrow> \<bar>d - q\<bar> \<le> \<bar>d' - q\<bar>))"
proof (cases "2 ^ 1024 \<le> \<bar>nearest q\<bar>")
  case True
  then have "roundDouble q = (if 0 < nearest q then PosInf else NegInf)"
    unfolding roundDouble_def Let_def by (rule if_P)
  then show ?thesis by (cases "0 < nearest q") simp_all
next
  case False
  then have r: "roundDouble q = Fin (nearest q)"
    unfolding roundDouble_def Let_def by (rule if_not_P)
  have "\<bar>nearest q\<bar> < 2 ^ 1024" using False by linarith
  then have d: "isDouble (nearest q)" by (rule nearest_isDouble)
  have "\<forall>d'. isDouble d' \<longrightarrow> \<bar>nearest q - q\<bar> \<le> \<bar>d' - q\<bar>"
    using nearest_closest by blast
  then show ?thesis using r d by blast
qed

lemma roundDouble_underflow:
  assumes "q \<le> - (2 ^ 1024)"
  shows "roundDouble q = NegInf"
proof -
  have "2 ^ 1024 \<le> - q" using assms by linarith
  then have "2 ^ 1024 \<le> nearest (- q)" by (rule nearest_big)
  then have big: "nearest q \<le> - (2 ^ 1024)" unfolding nearest_minus by linarith
  have z: "(0 :: rat) < 2 ^ 1024" by (rule zero_less_power) simp
  have a: "2 ^ 1024 \<le> \<bar>nearest q\<bar>" using big z by linarith
  have b: "\<not> 0 < nearest q" using big z by linarith
  have "roundDouble q = (if 0 < nearest q then PosInf else NegInf)"
    unfolding roundDouble_def Let_def using a by (rule if_P)
  then show ?thesis using b by simp
qed


subsection \<open>Integers\<close>

lemma roundDouble_int: "\<bar>n\<bar> < 2 ^ 53 \<Longrightarrow> roundDouble (of_int n) = Fin (of_int n)"
  by (rule roundDouble_double) (rule isDouble_int)

lemma roundDouble_numeral:
  "(numeral k :: int) < 2 ^ 53 \<Longrightarrow> roundDouble (numeral k) = Fin (numeral k)"
  using roundDouble_int [of "numeral k"] by simp

lemma roundDouble_neg_numeral:
  "(numeral k :: int) < 2 ^ 53 \<Longrightarrow> roundDouble (- numeral k) = Fin (- numeral k)"
  using roundDouble_int [of "- numeral k"] by simp

lemma roundDouble_zero: "roundDouble 0 = Fin 0"
  using roundDouble_int [of 0] by simp

lemma roundDouble_one: "roundDouble 1 = Fin 1"
  using roundDouble_int [of 1] by simp

lemmas eval_round =
  roundDouble_numeral roundDouble_neg_numeral roundDouble_zero roundDouble_one

section \<open>Arithmetic of doubles: examples\<close>

lemmas eval_parseFloat =
  parseFloatStr_def parseExponent_def isSpace_def isDigit_def digitsVal_def digitVal_def
  startsWith_def Let_def

text \<open>\<^verbatim>\<open>parseFloat\<close> reads the longest numeric prefix.\<close>

lemma parseFloatStr_examples:
  "parseFloatStr ''100.00'' = Fin 100"
  "parseFloatStr ''  42'' = Fin 42"
  "parseFloatStr ''12px'' = Fin 12"
  "parseFloatStr ''-7.5e1abc'' = Fin (- 75)"
  "parseFloatStr ''+3E2'' = Fin 300"
  "parseFloatStr ''2e'' = Fin 2"
  "parseFloatStr ''2e-'' = Fin 2"
  "parseFloatStr ''abc'' = NaN"
  "parseFloatStr [] = NaN"
  "parseFloatStr ''.'' = NaN"
  "parseFloatStr ''-Infinity'' = NegInf"
  "parseFloatStr ''Infinity'' = PosInf"
  by (simp_all add: eval_parseFloat eval_round)

lemma parseFloatStr_half: "parseFloatStr ''.5'' = Fin (1 / 2)"
  using roundDouble_half [of 1] by (simp add: eval_parseFloat)

text \<open>
  \<^verbatim>\<open>parseFloat('0.1') * 3\<close> is \<^verbatim>\<open>0.30000000000000004\<close>
  (\<open>5404319552844596 / 2^54\<close>), not three tenths.
\<close>

lemma round_1_10: "roundDouble (1 / 10) = Fin (3602879701896397 / 36028797018963968)"
  using roundDouble_nearI [of "- 4" "1 / 10" 7205759403792794] by simp

lemma round_3_10:
  "roundDouble (10808639105689191 / 36028797018963968) = Fin (1351079888211149 / 4503599627370496)"
  using roundDouble_tieI [of "- 2" "10808639105689191 / 36028797018963968" 5404319552844595] by simp

lemma three_tenths:
  "mulNum (parseFloatStr ''0.1'') (Fin 3) = Fin (5404319552844596 / 2 ^ 54)"
  "5404319552844596 / 2 ^ 54 \<noteq> (3 :: rat) / 10"
  by (simp_all add: eval_parseFloat round_1_10 round_3_10)

text \<open>\<^verbatim>\<open>parseFloat('1e400')\<close> is \<^verbatim>\<open>Infinity\<close>, and \<^verbatim>\<open>Infinity * 0\<close> is \<^verbatim>\<open>NaN\<close>.\<close>

lemma overflow_1e400:
  "parseFloatStr ''1e400'' = PosInf"
  "mulNum (parseFloatStr ''1e400'') (Fin 0) = NaN"
proof -
  have "(2 :: rat) ^ 1024 \<le> 16 ^ 256" by simp
  also have "\<dots> \<le> 10 ^ 400" by simp
  finally have "roundDouble (10 ^ 400) = PosInf" by (rule roundDouble_overflow)
  then show "parseFloatStr ''1e400'' = PosInf"
    by (simp add: eval_parseFloat del: power_numeral)
  then show "mulNum (parseFloatStr ''1e400'') (Fin 0) = NaN"
    by simp
qed


text \<open>
  The sum of doubles depends on the order: \<^verbatim>\<open>39.98 + -39.98 + 59.97\<close> is
  \<^verbatim>\<open>59.97\<close> and \<^verbatim>\<open>39.98 + 59.97 + -39.98\<close> is \<^verbatim>\<open>59.96999999999999\<close>.
\<close>

lemma sum_order:
  "parseFloatStr ''39.98'' = Fin (5626684784446013 / 2 ^ 47)"
  "parseFloatStr ''59.97'' = Fin (8440027176669020 / 2 ^ 47)"
  "foldl addNum (Fin 0)
     [Fin (5626684784446013 / 2 ^ 47), Fin (- (5626684784446013 / 2 ^ 47)),
      Fin (8440027176669020 / 2 ^ 47)]
     = Fin (8440027176669020 / 2 ^ 47)"
  "foldl addNum (Fin 0)
     [Fin (5626684784446013 / 2 ^ 47), Fin (8440027176669020 / 2 ^ 47),
      Fin (- (5626684784446013 / 2 ^ 47))]
     = Fin (8440027176669019 / 2 ^ 47)"
proof -
  have a: "roundDouble (1999 / 50) = Fin (5626684784446013 / 140737488355328)"
    using roundDouble_nearI [of 5 "1999 / 50" 5626684784446013] by simp
  have b: "roundDouble (5997 / 100) = Fin (2110006794167255 / 35184372088832)"
    using roundDouble_nearI [of 5 "5997 / 100" 8440027176669020] by simp
  have a': "roundDouble (5626684784446013 / 140737488355328)
              = Fin (5626684784446013 / 140737488355328)"
    using roundDouble_double [OF isDouble_dyadic [of 5626684784446013 47]] by simp
  have b': "roundDouble (2110006794167255 / 35184372088832)
              = Fin (2110006794167255 / 35184372088832)"
    using roundDouble_double [OF isDouble_dyadic [of 2110006794167255 45]] by simp
  have ab: "roundDouble (14066711961115033 / 140737488355328)
              = Fin (1758338995139379 / 17592186044416)"
    using roundDouble_tieI [of 6 "14066711961115033 / 140737488355328" 7033355980557516] by simp
  have c: "roundDouble (8440027176669019 / 140737488355328)
              = Fin (8440027176669019 / 140737488355328)"
    using roundDouble_double [OF isDouble_dyadic [of 8440027176669019 47]] by simp
  show "parseFloatStr ''39.98'' = Fin (5626684784446013 / 2 ^ 47)"
    by (simp add: eval_parseFloat a)
  show "parseFloatStr ''59.97'' = Fin (8440027176669020 / 2 ^ 47)"
    by (simp add: eval_parseFloat b)
  show "foldl addNum (Fin 0)
     [Fin (5626684784446013 / 2 ^ 47), Fin (- (5626684784446013 / 2 ^ 47)),
      Fin (8440027176669020 / 2 ^ 47)]
     = Fin (8440027176669020 / 2 ^ 47)"
    by (simp add: a' b' roundDouble_zero)
  show "foldl addNum (Fin 0)
     [Fin (5626684784446013 / 2 ^ 47), Fin (8440027176669020 / 2 ^ 47),
      Fin (- (5626684784446013 / 2 ^ 47))]
     = Fin (8440027176669019 / 2 ^ 47)"
    by (simp add: a' ab c)
qed

text \<open>
  Two time values that are 140000000 days and one millisecond apart: the difference
  is above \<open>2^53\<close> and rounds, so the nights are 140000000, one less than the exact
  ceiling.
\<close>

lemma nights_far_apart:
  "nightsBetween (Fin (- 6048000000000000)) (Fin 6048000000000001) = Fin 140000000"
  "\<lceil>(6048000000000001 - (- 6048000000000000) :: rat) / 86400000\<rceil> = 140000001"
proof -
  have "roundDouble 12096000000000001 = Fin 12096000000000000"
    using roundDouble_tieI [of 53 12096000000000001 6048000000000000] by simp
  then show "nightsBetween (Fin (- 6048000000000000)) (Fin 6048000000000001) = Fin 140000000"
    by (simp add: nightsBetween_def subNum_def msPerDay_def eval_round)
  show "\<lceil>(6048000000000001 - (- 6048000000000000) :: rat) / 86400000\<rceil> = 140000001"
    by (rule ceiling_unique) simp_all
qed

section \<open>Decimal strings\<close>

lemma digit_facts:
  assumes "d < 10"
  shows "isDigit (digitChar d)" and "digitVal (digitChar d) = d" and "\<not> isSpace (digitChar d)"
    and "digitChar d \<noteq> CHR ''-''" and "digitChar d \<noteq> CHR ''+''" and "digitChar d \<noteq> CHR ''I''"
proof -
  have "d \<in> {0, 1, 2, 3, 4, 5, 6, 7, 8, 9}" using assms by auto
  then show "isDigit (digitChar d)" and "digitVal (digitChar d) = d" and "\<not> isSpace (digitChar d)"
    and "digitChar d \<noteq> CHR ''-''" and "digitChar d \<noteq> CHR ''+''" and "digitChar d \<noteq> CHR ''I''"
    by (auto simp: isDigit_def digitVal_def digitChar_def isSpace_def)
qed

lemma isDigit_facts:
  assumes "isDigit c"
  shows "\<not> isSpace c" and "c \<noteq> CHR ''-''" and "c \<noteq> CHR ''+''" and "c \<noteq> CHR ''I''"
    and "c \<noteq> CHR ''.''"
  using assms by (auto simp: isDigit_def isSpace_def)

lemma showNat_digits: "list_all isDigit (showNat n) \<and> showNat n \<noteq> []"
proof (induction n rule: showNat.induct)
  case (1 n)
  show ?case
  proof (cases "n < 10")
    case True
    then show ?thesis using digit_facts(1) [of n] by (subst showNat.simps, subst showNat.simps) simp
  next
    case False
    have "n mod 10 < 10" by simp
    then have "isDigit (digitChar (n mod 10))" by (rule digit_facts(1))
    then show ?thesis using 1 False by (subst showNat.simps, subst showNat.simps) simp
  qed
qed

lemma digitsVal_snoc: "digitsVal (ds @ [c]) = 10 * digitsVal ds + digitVal c"
  by (simp add: digitsVal_def)

lemma digitsVal_showNat: "digitsVal (showNat n) = n"
proof (induction n rule: showNat.induct)
  case (1 n)
  show ?case
  proof (cases "n < 10")
    case True
    then show ?thesis
      using digit_facts(2) [of n] by (subst showNat.simps) (simp add: digitsVal_def)
  next
    case False
    have "n mod 10 < 10" by simp
    then have "digitVal (digitChar (n mod 10)) = n mod 10" by (rule digit_facts(2))
    then show ?thesis
      using 1 False by (subst showNat.simps) (simp add: digitsVal_snoc)
  qed
qed


text \<open>
  A price written with two decimals: the digits of \<open>n\<close>, a point and the digits \<open>a\<close>
  and \<open>b\<close> parse to the double nearest to \<open>n + (10 a + b) / 100\<close>.
\<close>

lemma parseFloatStr_price:
  assumes "a < 10" and "b < 10"
  shows "parseFloatStr (showNat n @ ''.'' @ [digitChar a, digitChar b])
           = roundDouble (of_nat (100 * n + 10 * a + b) / 100)"
proof -
  define ds where "ds = showNat n"
  define s where "s = ds @ ''.'' @ [digitChar a, digitChar b]"
  have dig: "list_all isDigit ds"
    unfolding ds_def by (rule conjunct1 [OF showNat_digits])
  have ne: "ds \<noteq> []"
    unfolding ds_def by (rule conjunct2 [OF showNat_digits])
  from ne obtain c cs where ds: "ds = c # cs"
    by (cases ds) simp_all
  have c: "isDigit c"
    using dig unfolding ds by simp
  note cf = isDigit_facts [OF c]
  have da: "isDigit (digitChar a)" and db: "isDigit (digitChar b)"
    using assms by (simp_all add: digit_facts(1))
  have nd: "\<not> isDigit (CHR ''.'')"
    by (simp add: isDigit_def)
  have t: "dropWhile isSpace s = s"
    unfolding s_def ds using cf(1) by simp
  have h: "hd s = c" "s \<noteq> []"
    unfolding s_def ds by simp_all
  have inf: "\<not> startsWith s ''Infinity''"
    unfolding s_def ds startsWith_def using cf(4) by simp
  have ip: "takeWhile isDigit s = ds"
    unfolding s_def using dig nd by (simp add: takeWhile_append list_all_iff)
  have r1: "dropWhile isDigit s = ''.'' @ [digitChar a, digitChar b]"
    unfolding s_def using dig nd by (simp add: dropWhile_append list_all_iff)
  have v: "digitsVal (ds @ [digitChar a, digitChar b]) = 100 * n + 10 * a + b"
  proof -
    have "digitsVal ((ds @ [digitChar a]) @ [digitChar b])
            = 10 * (10 * digitsVal ds + digitVal (digitChar a)) + digitVal (digitChar b)"
      by (simp only: digitsVal_snoc)
    moreover have "digitsVal ds = n"
      unfolding ds_def by (rule digitsVal_showNat)
    ultimately show ?thesis
      using digit_facts(2) [OF assms(1)] digit_facts(2) [OF assms(2)] by simp
  qed
  have "parseFloatStr s = roundDouble (of_nat (100 * n + 10 * a + b) / 100)"
    unfolding parseFloatStr_def t
    using h cf(2,3) inf da db
    by (simp add: Let_def ip r1 v parseExponent_def)
  then show ?thesis
    unfolding s_def ds_def .
qed

lemma parseFloatStr_price_100: "parseFloatStr ''100.00'' = Fin 100"
  using parseFloatStr_price [of 0 0 100] by (simp add: digitChar_def eval_round)

section \<open>Evaluation in the example environment\<close>

lemmas eval_http =
  destinationsGet_def pricingGet_def itinerariesGet_def httpGet_def decode_def okStatus_def
  demoFetch_def digitChar_def startsWith_def Let_def

lemmas eval_dates =
  dateParse_def parseIsoDate_def parseIsoDateTime_def isDigit_def digitsVal_def digitVal_def daysInMonth_def
  daysFromCivil_def isLeapYear_def

lemmas eval_validation =
  validateSegment_def cityErrors_def lodgingErrors_def dateErrors_def validateCityExists_def
  validateLodgingClass_def classMatches_def ret_def lift_def

lemma validateSegment_demo_good:
  "validateSegment demoEnv
     (JObj [(''city_id'', JStr ''paris''), (''lodging_class'', JStr ''deluxe''),
            (''start_date'', JStr ''2024-01-01''), (''end_date'', JStr ''2024-01-04'')]) =
   (Inr \<lparr>valid = True, errors = []\<rparr>,
    [Request GET ''http://destinations/cities/paris'' None,
     Request GET ''http://pricing/lodging-classes'' None])"
  by (simp add: eval_validation eval_http eval_dates)

lemma validateSegment_demo_empty:
  "validateSegment demoEnv (JObj []) =
   (Inr \<lparr>valid = False,
         errors = [''Segment missing city_id'', ''Segment missing lodging_class'',
                   ''Segment missing start_date'', ''Segment missing end_date'']\<rparr>,
    [])"
  by (simp add: eval_validation inherited_def objectPrototypeKeys_def)

lemma validateSegment_demo_bad:
  "validateSegment demoEnv
     (JObj [(''city_id'', JStr ''berlin''), (''lodging_class'', JStr ''lux''),
            (''start_date'', JStr ''2024-01-04''), (''end_date'', JStr ''2024-01-01'')]) =
   (Inr \<lparr>valid = False,
         errors = [''City with ID '' @ [CHR 0x27] @ ''berlin'' @ [CHR 0x27] @ '' does not exist'',
                   ''Lodging class '' @ [CHR 0x27] @ ''lux'' @ [CHR 0x27] @ '' does not exist'',
                   ''end_date must be after start_date'']\<rparr>,
    [Request GET ''http://destinations/cities/berlin'' None,
     Request GET ''http://pricing/lodging-classes'' None])"
  by (simp add: eval_validation eval_http eval_dates)

text \<open>
  The two forms of date strings that are modelled, a day that does not exist, and a
  string left to the host.
\<close>

lemma dateParse_examples:
  "dateParse (\<lambda>s. None) ''1970-01-01'' = Fin 0"
  "dateParse (\<lambda>s. None) ''2024-02-29'' = Fin 1709164800000"
  "dateParse (\<lambda>s. None) ''2023-02-29'' = NaN"
  "dateParse (\<lambda>s. None) ''2024-03-01T12:34:56.789Z'' = Fin 1709296496789"
  "dateParse (\<lambda>s. None) ''1969-12-31T23:59:59.999Z'' = Fin (- 1)"
  "dateParse (\<lambda>s. None) ''2024-03-01T24:00:00.000Z'' = NaN"
  "dateParse (\<lambda>s. Some 5) ''March 1, 2024'' = Fin 5"
  by (simp_all add: eval_dates)

section \<open>Create composite itinerary: the validation gate (C1)\<close>

lemma validateAll_results:
  assumes "\<forall>i<length segs. fst (validateSegment env (segs ! i)) = Inr (res i)"
  shows "fst (validateAll env segs) = Inr (map (\<lambda>i. (i, res i)) [0..<length segs])"
proof -
  have "map fst (map (\<lambda>(index, segment).
               andThen (validateSegment env segment) (\<lambda>result. ret (index, result)))
            (zip [0..<length segs] segs)) = map Inr (map (\<lambda>i. (i, res i)) [0..<length segs])"
    using assms by (intro nth_equalityI) (simp_all add: fst_andThen ret_def)
  then show ?thesis
    unfolding validateAll_def by (rule promiseAll_all_fulfilled)
qed

text \<open>
  C1. A request that carries an itinerary and a non-empty array of segments, each of
  whose validations returns its result \<open>res i\<close>, at least one of them invalid: the
  route answers 400 with \<^verbatim>\<open>Segment validation failed\<close> and the details list that
  holds, for every invalid segment and in the order of the indices, the index and
  the whole error list of its validation; every request issued is a read, so no
  itinerary and no segment is created.
\<close>

theorem postItinerary_validation_failure:
  assumes "destructureBody reqBody = Inr (itinerary, JArr segs)"
      and "truthy itinerary"
      and "segs \<noteq> []"
      and "\<forall>i<length segs. fst (validateSegment env (segs ! i)) = Inr (res i)"
      and "\<exists>i<length segs. \<not> valid (res i)"
  shows "fst (postItinerary env reqBody) =
           Reply 400
             (JObj [(''error'', JStr ''Segment validation failed''),
                    (''details'',
                     JArr (map (\<lambda>i. JObj [(''segment_index'', JNum (Fin (of_nat i))),
                                           (''errors'', JArr (map JStr (errors (res i))))])
                             (filter (\<lambda>i. \<not> valid (res i)) [0..<length segs])))])
         \<and> onlyReads (snd (postItinerary env reqBody))"
proof -
  let ?bad = "filter (\<lambda>i. \<not> valid (res i)) [0..<length segs]"
  have va: "fst (validateAll env segs) = Inr (map (\<lambda>i. (i, res i)) [0..<length segs])"
    using assms(4) by (rule validateAll_results)
  have flt: "filter (\<lambda>r. \<not> valid (snd r)) (map (\<lambda>i. (i, res i)) [0..<length segs])
               = map (\<lambda>i. (i, res i)) ?bad"
    by (simp add: filter_map comp_def)
  have ne: "?bad \<noteq> []"
    using assms(5) by (auto simp: filter_empty_conv)
  obtain t where vt: "validateAll env segs = (Inr (map (\<lambda>i. (i, res i)) [0..<length segs]), t)"
    using va by (cases "validateAll env segs") simp
  have rd: "onlyReads t"
    using onlyReads_validateAll [of env segs] vt by simp
  have ph: "validationPhase env (JArr segs) =
              (Inr (Some (Reply 400
                 (JObj [(''error'', JStr ''Segment validation failed''),
                        (''details'', JArr (map detailJson (map (\<lambda>i. (i, res i)) ?bad)))]))), t)"
    using assms(3) ne
    by (simp add: validationPhase_def suppliedSegments_def vt flt Let_def ret_def)
  have "postItinerary env reqBody =
          (Reply 400
             (JObj [(''error'', JStr ''Segment validation failed''),
                    (''details'', JArr (map detailJson (map (\<lambda>i. (i, res i)) ?bad)))]), t)"
    using assms(1,2) by (simp add: postItinerary_def ph catch500_def ret_def)
  then show ?thesis
    using rd by (simp add: detailJson_def comp_def)
qed

theorem postItinerary_validation_failure_witness:
  "fst (postItinerary demoEnv
          (JObj [(''itinerary'', JObj [(''name'', JStr ''Trip'')]),
                 (''segments'',
                  JArr [JObj [(''city_id'', JStr ''paris''), (''lodging_class'', JStr ''deluxe''),
                              (''start_date'', JStr ''2024-01-01''),
                              (''end_date'', JStr ''2024-01-04'')],
                        JObj [],
                        JObj [(''city_id'', JStr ''berlin''), (''lodging_class'', JStr ''lux''),
                              (''start_date'', JStr ''2024-01-04''),
                              (''end_date'', JStr ''2024-01-01'')]])])) =
     Reply 400
       (JObj [(''error'', JStr ''Segment validation failed''),
              (''details'',
               JArr [JObj [(''segment_index'', JNum (Fin 1)),
                           (''errors'',
                            JArr [JStr ''Segment missing city_id'',
                                  JStr ''Segment missing lodging_class'',
                                  JStr ''Segment missing start_date'',
                                  JStr ''Segment missing end_date''])],
                     JObj [(''segment_index'', JNum (Fin 2)),
                           (''errors'',
                            JArr [JStr (''City with ID '' @ [CHR 0x27] @ ''berlin'' @ [CHR 0x27]
                                        @ '' does not exist''),
                                  JStr (''Lodging class '' @ [CHR 0x27] @ ''lux'' @ [CHR 0x27]
                                        @ '' does not exist''),
                                  JStr ''end_date must be after start_date''])]])])
   \<and> onlyReads (snd (postItinerary demoEnv
          (JObj [(''itinerary'', JObj [(''name'', JStr ''Trip'')]),
                 (''segments'',
                  JArr [JObj [(''city_id'', JStr ''paris''), (''lodging_class'', JStr ''deluxe''),
                              (''start_date'', JStr ''2024-01-01''),
                              (''end_date'', JStr ''2024-01-04'')],
                        JObj [],
                        JObj [(''city_id'', JStr ''berlin''), (''lodging_class'', JStr ''lux''),
                              (''start_date'', JStr ''2024-01-04''),
                              (''end_date'', JStr ''2024-01-01'')]])])))"
proof -
  let ?good = "JObj [(''city_id'', JStr ''paris''), (''lodging_class'', JStr ''deluxe''),
                     (''start_date'', JStr ''2024-01-01''), (''end_date'', JStr ''2024-01-04'')]"
  let ?bad = "JObj [(''city_id'', JStr ''berlin''), (''lodging_class'', JStr ''lux''),
                    (''start_date'', JStr ''2024-01-04''), (''end_date'', JStr ''2024-01-01'')]"
  let ?segs = "[?good, JObj [], ?bad]"
  let ?itinerary = "JObj [(''name'', JStr ''Trip'')]"
  let ?body = "JObj [(''itinerary'', ?itinerary), (''segments'', JArr ?segs)]"
  let ?rs = "[\<lparr>valid = True, errors = []\<rparr>,
              \<lparr>valid = False,
                errors = [''Segment missing city_id'', ''Segment missing lodging_class'',
                          ''Segment missing start_date'', ''Segment missing end_date'']\<rparr>,
              \<lparr>valid = False,
                errors = [''City with ID '' @ [CHR 0x27] @ ''berlin'' @ [CHR 0x27] @ '' does not exist'',
                          ''Lodging class '' @ [CHR 0x27] @ ''lux'' @ [CHR 0x27] @ '' does not exist'',
                          ''end_date must be after start_date'']\<rparr>]"
  have h1: "destructureBody ?body = Inr (?itinerary, JArr ?segs)"
    by (simp add: destructureBody_def)
  have h2: "truthy ?itinerary" by simp
  have h3: "?segs \<noteq> []" by simp
  have h4: "\<forall>i<length ?segs. fst (validateSegment demoEnv (?segs ! i)) = Inr (?rs ! i)"
    by (simp add: All_less_Suc validateSegment_demo_good validateSegment_demo_empty
        validateSegment_demo_bad)
  have h5: "\<exists>i<length ?segs. \<not> valid (?rs ! i)"
    by (intro exI [of _ 1]) simp
  have up: "[0..<length ?segs] = [0, 1, 2]"
    by (simp add: upt_rec)
  show ?thesis
    using postItinerary_validation_failure [OF h1 h2 h3 h4 h5] unfolding up by simp
qed

lemma onlyReads_validationPhase [simp]: "onlyReads (snd (validationPhase env segments))"
  unfolding validationPhase_def
  by (auto simp: Let_def intro!: onlyReads_andThen)

text \<open>
  Whenever the validation block does not let the route go on (it answers 400, or the
  validation of some segment throws and the route answers 500), nothing was written.
\<close>

lemma postItinerary_aborts_without_write:
  assumes "destructureBody reqBody = Inr (itinerary, segments)"
      and "fst (validationPhase env segments) \<noteq> Inr None"
  shows "onlyReads (snd (postItinerary env reqBody))"
proof -
  obtain r t where v: "validationPhase env segments = (r, t)"
    by (cases "validationPhase env segments")
  have t: "onlyReads t"
    using onlyReads_validationPhase [of env segments] v by simp
  show ?thesis
  proof (cases r)
    case (Inl e)
    then show ?thesis
      using assms(1) v t by (simp add: postItinerary_def catch500_def ret_def)
  next
    case (Inr early)
    then obtain rep where "early = Some rep"
      using assms(2) v by (cases early) auto
    then show ?thesis
      using assms(1) v t Inr by (simp add: postItinerary_def catch500_def ret_def)
  qed
qed

lemma validateSegment_demo_rome:
  "validateSegment demoEnv (JObj [(''city_id'', JStr ''rome'')]) =
     (Inl (JsError ''HTTP 503: Service Unavailable from http://destinations/cities/rome''),
      [Request GET ''http://destinations/cities/rome'' None])"
  by (simp add: eval_validation eval_http)

text \<open>
  Two requests with a non-empty array of segments whose first segment fails
  validation, and that are not answered with the details list. In the first the
  validation of the second segment is aborted by a failure of the destinations
  service (status 503), and the route answers 500 with the message of that failure.
  The second carries no itinerary, and the route answers
  \<^verbatim>\<open>Missing itinerary data\<close> before it validates anything.
\<close>

theorem postItinerary_validation_failure_counterexample:
  "fst (validateSegment demoEnv (JObj [])) =
     Inr \<lparr>valid = False,
          errors = [''Segment missing city_id'', ''Segment missing lodging_class'',
                    ''Segment missing start_date'', ''Segment missing end_date'']\<rparr>
   \<and> fst (postItinerary demoEnv
            (JObj [(''itinerary'', JObj [(''name'', JStr ''Trip'')]),
                   (''segments'', JArr [JObj [], JObj [(''city_id'', JStr ''rome'')]])])) =
       Reply 500
         (JObj [(''error'',
                 JStr ''HTTP 503: Service Unavailable from http://destinations/cities/rome'')])
   \<and> fst (postItinerary demoEnv (JObj [(''segments'', JArr [JObj []])])) =
       Reply 400 (JObj [(''error'', JStr ''Missing itinerary data'')])"
  by (simp add: postItinerary_def destructureBody_def validationPhase_def suppliedSegments_def
      validateAll_def promiseAll_def validateSegment_demo_empty validateSegment_demo_rome
      catch500_def ret_def upt_rec inherited_def objectPrototypeKeys_def)

section \<open>Segment validation (C8, C3)\<close>

text \<open>
  C8. Validation accumulates: each of the five checks of a segment contributes its
  error whatever the other checks find. Let \<open>c\<close>, \<open>l\<close>, \<open>s\<close> and \<open>e\<close> be the four
  fields of the segment; when \<open>c\<close> is present let the city check return \<open>cv\<close>, when
  \<open>l\<close> is present let the lodging-class check return \<open>lv\<close>, and when both dates are
  present let them denote \<open>start\<close> and \<open>end\<close>. Then the validation returns the errors
  of the city (missing, or the error of \<open>cv\<close>), of the lodging class (missing, or the
  error of \<open>lv\<close>), of a missing start date, of a missing end date and of the date
  order, in this order, and the result is valid only when there is none. The requests
  are those of the checks that ran. In particular a segment whose four fields are all
  missing has exactly the four errors of the missing fields, and no request is issued.
\<close>

theorem validateSegment_accumulates:
  assumes "getProp segment ''city_id'' = Inr c"
      and "getProp segment ''lodging_class'' = Inr l"
      and "getProp segment ''start_date'' = Inr s"
      and "getProp segment ''end_date'' = Inr e"
      and "truthy c \<longrightarrow> toStringJs (hostNumStr env) c = Inr cid
                        \<and> validateCityExists env cid = (Inr cv, t1)"
      and "truthy l \<longrightarrow> validateLodgingClass env l = (Inr lv, t2)"
      and "truthy s \<and> truthy e \<longrightarrow>
             newDate (hostDateParse env) (hostNumStr env) s = Inr start
           \<and> newDate (hostDateParse env) (hostNumStr env) e = Inr end"
  shows "validateSegment env segment =
           (Inr \<lparr>valid =
                   ((truthy c \<and> cv = Valid) \<and> (truthy l \<and> lv = Valid) \<and> truthy s \<and> truthy e
                    \<and> \<not> lessEq end start),
                 errors =
                   (if \<not> truthy c then [''Segment missing city_id'']
                    else case cv of Valid \<Rightarrow> [] | Invalid m \<Rightarrow> [m])
                   @ (if \<not> truthy l then [''Segment missing lodging_class'']
                      else case lv of Valid \<Rightarrow> [] | Invalid m \<Rightarrow> [m])
                   @ (if \<not> truthy s then [''Segment missing start_date''] else [])
                   @ (if \<not> truthy e then [''Segment missing end_date''] else [])
                   @ (if truthy s \<and> truthy e \<and> lessEq end start
                      then [''end_date must be after start_date''] else [])\<rparr>,
            (if truthy c then t1 else []) @ (if truthy l then t2 else []))
         \<and> (\<not> truthy c \<and> \<not> truthy l \<and> \<not> truthy s \<and> \<not> truthy e \<longrightarrow>
              validateSegment env segment =
                (Inr \<lparr>valid = False,
                      errors = [''Segment missing city_id'', ''Segment missing lodging_class'',
                                ''Segment missing start_date'', ''Segment missing end_date'']\<rparr>,
                 []))"
proof -
  have ce: "cityErrors env segment =
              (Inr (if \<not> truthy c then [''Segment missing city_id'']
                    else case cv of Valid \<Rightarrow> [] | Invalid m \<Rightarrow> [m]),
               if truthy c then t1 else [])"
    using assms(1,5) by (simp add: cityErrors_def ret_def)
  have le: "lodgingErrors env segment =
              (Inr (if \<not> truthy l then [''Segment missing lodging_class'']
                    else case lv of Valid \<Rightarrow> [] | Invalid m \<Rightarrow> [m]),
               if truthy l then t2 else [])"
    using assms(2,6) by (simp add: lodgingErrors_def ret_def)
  have de: "dateErrors env segment =
              Inr ((if \<not> truthy s then [''Segment missing start_date''] else [])
                   @ (if \<not> truthy e then [''Segment missing end_date''] else [])
                   @ (if truthy s \<and> truthy e \<and> lessEq end start
                      then [''end_date must be after start_date''] else []))"
    using assms(3,4,7) by (simp add: dateErrors_def)
  have main: "validateSegment env segment =
           (Inr \<lparr>valid =
                   ((truthy c \<and> cv = Valid) \<and> (truthy l \<and> lv = Valid) \<and> truthy s \<and> truthy e
                    \<and> \<not> lessEq end start),
                 errors =
                   (if \<not> truthy c then [''Segment missing city_id'']
                    else case cv of Valid \<Rightarrow> [] | Invalid m \<Rightarrow> [m])
                   @ (if \<not> truthy l then [''Segment missing lodging_class'']
                      else case lv of Valid \<Rightarrow> [] | Invalid m \<Rightarrow> [m])
                   @ (if \<not> truthy s then [''Segment missing start_date''] else [])
                   @ (if \<not> truthy e then [''Segment missing end_date''] else [])
                   @ (if truthy s \<and> truthy e \<and> lessEq end start
                      then [''end_date must be after start_date''] else [])\<rparr>,
            (if truthy c then t1 else []) @ (if truthy l then t2 else []))"
    unfolding validateSegment_def ce le de
    by (cases cv; cases lv) (simp_all add: ret_def lift_def Let_def)
  show ?thesis
    using main by simp
qed

theorem validateSegment_accumulates_witness:
  "validateSegment demoEnv (JObj []) =
     (Inr \<lparr>valid = False,
           errors = [''Segment missing city_id'', ''Segment missing lodging_class'',
                     ''Segment missing start_date'', ''Segment missing end_date'']\<rparr>,
      [])
   \<and> validateSegment demoEnv
       (JObj [(''city_id'', JStr ''berlin''), (''lodging_class'', JStr ''lux''),
              (''start_date'', JStr ''2024-01-04''), (''end_date'', JStr ''2024-01-01'')]) =
     (Inr \<lparr>valid = False,
           errors = [''City with ID '' @ [CHR 0x27] @ ''berlin'' @ [CHR 0x27] @ '' does not exist'',
                     ''Lodging class '' @ [CHR 0x27] @ ''lux'' @ [CHR 0x27] @ '' does not exist'',
                     ''end_date must be after start_date'']\<rparr>,
      [Request GET ''http://destinations/cities/berlin'' None,
       Request GET ''http://pricing/lodging-classes'' None])
   \<and> validateSegment demoEnv
       (JObj [(''city_id'', JStr ''berlin''), (''lodging_class'', JStr ''deluxe''),
              (''end_date'', JStr ''2024-01-01'')]) =
     (Inr \<lparr>valid = False,
           errors = [''City with ID '' @ [CHR 0x27] @ ''berlin'' @ [CHR 0x27] @ '' does not exist'',
                     ''Segment missing start_date'']\<rparr>,
      [Request GET ''http://destinations/cities/berlin'' None,
       Request GET ''http://pricing/lodging-classes'' None])"
proof -
  let ?bad = "JObj [(''city_id'', JStr ''berlin''), (''lodging_class'', JStr ''lux''),
                    (''start_date'', JStr ''2024-01-04''), (''end_date'', JStr ''2024-01-01'')]"
  let ?half = "JObj [(''city_id'', JStr ''berlin''), (''lodging_class'', JStr ''deluxe''),
                     (''end_date'', JStr ''2024-01-01'')]"
  let ?noCity = "Invalid (''City with ID '' @ [CHR 0x27] @ ''berlin'' @ [CHR 0x27] @ '' does not exist'')"
  let ?noClass = "Invalid (''Lodging class '' @ [CHR 0x27] @ ''lux'' @ [CHR 0x27] @ '' does not exist'')"
  have city: "validateCityExists demoEnv ''berlin''
                = (Inr ?noCity, [Request GET ''http://destinations/cities/berlin'' None])"
    by (simp add: validateCityExists_def eval_http)
  have lux: "validateLodgingClass demoEnv (JStr ''lux'')
               = (Inr ?noClass, [Request GET ''http://pricing/lodging-classes'' None])"
    by (simp add: validateLodgingClass_def classMatches_def ret_def lift_def eval_http)
  have deluxe: "validateLodgingClass demoEnv (JStr ''deluxe'')
               = (Inr Valid, [Request GET ''http://pricing/lodging-classes'' None])"
    by (simp add: validateLodgingClass_def classMatches_def ret_def lift_def eval_http)
  have d1: "newDate (hostDateParse demoEnv) (hostNumStr demoEnv) (JStr ''2024-01-04'')
              = Inr (Fin 1704326400000)"
    by (simp add: eval_dates)
  have d2: "newDate (hostDateParse demoEnv) (hostNumStr demoEnv) (JStr ''2024-01-01'')
              = Inr (Fin 1704067200000)"
    by (simp add: eval_dates)
  have A: "validateSegment demoEnv (JObj []) =
     (Inr \<lparr>valid = False,
           errors = [''Segment missing city_id'', ''Segment missing lodging_class'',
                     ''Segment missing start_date'', ''Segment missing end_date'']\<rparr>,
      [])"
    using validateSegment_accumulates
            [of "JObj []" JUndefined JUndefined JUndefined JUndefined demoEnv]
    by (simp add: inherited_def objectPrototypeKeys_def)
  have B: "validateSegment demoEnv ?bad =
     (Inr \<lparr>valid = False,
           errors = [''City with ID '' @ [CHR 0x27] @ ''berlin'' @ [CHR 0x27] @ '' does not exist'',
                     ''Lodging class '' @ [CHR 0x27] @ ''lux'' @ [CHR 0x27] @ '' does not exist'',
                     ''end_date must be after start_date'']\<rparr>,
      [Request GET ''http://destinations/cities/berlin'' None,
       Request GET ''http://pricing/lodging-classes'' None])"
    using validateSegment_accumulates
            [of ?bad "JStr ''berlin''" "JStr ''lux''" "JStr ''2024-01-04''" "JStr ''2024-01-01''"
                demoEnv "''berlin''" ?noCity
                "[Request GET ''http://destinations/cities/berlin'' None]" ?noClass
                "[Request GET ''http://pricing/lodging-classes'' None]"
                "Fin 1704326400000" "Fin 1704067200000"]
          city lux d1 d2
    by simp
  have C: "validateSegment demoEnv ?half =
     (Inr \<lparr>valid = False,
           errors = [''City with ID '' @ [CHR 0x27] @ ''berlin'' @ [CHR 0x27] @ '' does not exist'',
                     ''Segment missing start_date'']\<rparr>,
      [Request GET ''http://destinations/cities/berlin'' None,
       Request GET ''http://pricing/lodging-classes'' None])"
    using validateSegment_accumulates
            [of ?half "JStr ''berlin''" "JStr ''deluxe''" JUndefined "JStr ''2024-01-01''"
                demoEnv "''berlin''" ?noCity
                "[Request GET ''http://destinations/cities/berlin'' None]" Valid
                "[Request GET ''http://pricing/lodging-classes'' None]"]
          city deluxe
    by (simp add: inherited_def objectPrototypeKeys_def)
  show ?thesis
    using A B C by simp
qed

lemma dateErrors_reversed:
  assumes "getProp segment ''start_date'' = Inr start_date" and "truthy start_date"
      and "newDate (hostDateParse env) (hostNumStr env) start_date = Inr (Fin a)"
      and "getProp segment ''end_date'' = Inr end_date" and "truthy end_date"
      and "newDate (hostDateParse env) (hostNumStr env) end_date = Inr (Fin b)"
      and "b \<le> a"
  shows "dateErrors env segment = Inr [''end_date must be after start_date'']"
  using assms by (simp add: dateErrors_def)

text \<open>
  C3. A segment whose \<^verbatim>\<open>start_date\<close> and \<^verbatim>\<open>end_date\<close> are both present and denote
  the instants \<open>a\<close> and \<open>b\<close> with \<open>b \<le> a\<close>. Every result that its validation
  returns is invalid and holds \<^verbatim>\<open>end_date must be after start_date\<close> in its error
  list. And the validation does return a result whenever the city check and the
  lodging-class check return theirs, whatever they find (no error, a missing field or
  an unknown reference: the lists \<open>es1\<close> and \<open>es2\<close>); the error list is then
  \<open>es1\<close>, \<open>es2\<close> and the date-ordering error.
\<close>

theorem validateSegment_date_order:
  assumes "getProp segment ''start_date'' = Inr start_date" and "truthy start_date"
      and "newDate (hostDateParse env) (hostNumStr env) start_date = Inr (Fin a)"
      and "getProp segment ''end_date'' = Inr end_date" and "truthy end_date"
      and "newDate (hostDateParse env) (hostNumStr env) end_date = Inr (Fin b)"
      and "b \<le> a"
  shows "(\<forall>r t. validateSegment env segment = (Inr r, t) \<longrightarrow>
            ''end_date must be after start_date'' \<in> set (errors r) \<and> \<not> valid r)
         \<and> (\<forall>es1 t1 es2 t2.
               cityErrors env segment = (Inr es1, t1) \<and> lodgingErrors env segment = (Inr es2, t2) \<longrightarrow>
               validateSegment env segment =
                 (Inr \<lparr>valid = False,
                       errors = es1 @ es2 @ [''end_date must be after start_date'']\<rparr>,
                  t1 @ t2))"
proof -
  have d: "dateErrors env segment = Inr [''end_date must be after start_date'']"
    using assms by (rule dateErrors_reversed)
  have 2: "validateSegment env segment =
             (Inr \<lparr>valid = False, errors = es1 @ es2 @ [''end_date must be after start_date'']\<rparr>,
              t1 @ t2)"
    if "cityErrors env segment = (Inr es1, t1)" and "lodgingErrors env segment = (Inr es2, t2)"
    for es1 t1 es2 t2
    using that by (simp add: validateSegment_def d ret_def)
  have 1: "''end_date must be after start_date'' \<in> set (errors r) \<and> \<not> valid r"
    if r: "validateSegment env segment = (Inr r, t)" for r t
  proof -
    obtain c t1 where c: "cityErrors env segment = (c, t1)"
      by (cases "cityErrors env segment")
    obtain l t2 where l: "lodgingErrors env segment = (l, t2)"
      by (cases "lodgingErrors env segment")
    show ?thesis
    proof (cases c)
      case (Inl e)
      then show ?thesis using r c by (simp add: validateSegment_def)
    next
      case (Inr es1)
      note es1 = this
      show ?thesis
      proof (cases l)
        case (Inl e)
        then show ?thesis using r c l es1 by (simp add: validateSegment_def)
      next
        case (Inr es2)
        then show ?thesis using r 2 [of es1 t1 es2 t2] c l es1 by auto
      qed
    qed
  qed
  show ?thesis
    using 1 2 by blast
qed

theorem validateSegment_date_order_witness:
  "validateSegment demoEnv
     (JObj [(''city_id'', JStr ''berlin''), (''lodging_class'', JStr ''lux''),
            (''start_date'', JStr ''2024-01-04''), (''end_date'', JStr ''2024-01-01'')]) =
   (Inr \<lparr>valid = False,
         errors = [''City with ID '' @ [CHR 0x27] @ ''berlin'' @ [CHR 0x27] @ '' does not exist'',
                   ''Lodging class '' @ [CHR 0x27] @ ''lux'' @ [CHR 0x27] @ '' does not exist'',
                   ''end_date must be after start_date'']\<rparr>,
    [Request GET ''http://destinations/cities/berlin'' None,
     Request GET ''http://pricing/lodging-classes'' None])"
proof -
  let ?seg = "JObj [(''city_id'', JStr ''berlin''), (''lodging_class'', JStr ''lux''),
                    (''start_date'', JStr ''2024-01-04''), (''end_date'', JStr ''2024-01-01'')]"
  have c: "cityErrors demoEnv ?seg =
             (Inr [''City with ID '' @ [CHR 0x27] @ ''berlin'' @ [CHR 0x27] @ '' does not exist''],
              [Request GET ''http://destinations/cities/berlin'' None])"
    by (simp add: eval_validation eval_http)
  have l: "lodgingErrors demoEnv ?seg =
             (Inr [''Lodging class '' @ [CHR 0x27] @ ''lux'' @ [CHR 0x27] @ '' does not exist''],
              [Request GET ''http://pricing/lodging-classes'' None])"
    by (simp add: eval_validation eval_http)
  have s: "getProp ?seg ''start_date'' = Inr (JStr ''2024-01-04'')" by simp
  have e: "getProp ?seg ''end_date'' = Inr (JStr ''2024-01-01'')" by simp
  have sd: "newDate (hostDateParse demoEnv) (hostNumStr demoEnv) (JStr ''2024-01-04'')
              = Inr (Fin 1704326400000)"
    by (simp add: eval_dates)
  have ed: "newDate (hostDateParse demoEnv) (hostNumStr demoEnv) (JStr ''2024-01-01'')
              = Inr (Fin 1704067200000)"
    by (simp add: eval_dates)
  have le: "(1704067200000 :: rat) \<le> 1704326400000" by simp
  have ts: "truthy (JStr ''2024-01-04'')" "truthy (JStr ''2024-01-01'')" by simp_all
  show ?thesis
    using validateSegment_date_order [OF s ts(1) sd e ts(2) ed le] c l by simp
qed

section \<open>The city existence check (C4)\<close>

text \<open>A response with status 404 gives the invalid result.\<close>

lemma validateCityExists_not_found:
  assumes "fetch env (Request GET (DESTINATIONS_URL env @ ''/cities/'' @ cityId) None)
             = Response 404 txt b"
  shows "validateCityExists env cityId =
           (Inr (Invalid (''City with ID '' @ [CHR 0x27] @ cityId @ [CHR 0x27] @ '' does not exist'')),
            [Request GET (DESTINATIONS_URL env @ ''/cities/'' @ cityId) None])"
proof -
  have "includesStr (''HTTP '' @ showNat 404 @ '': '' @ txt @ '' from '' @ u) ''404''" for u
    by (simp add: digitChar_def startsWith_def)
  then show ?thesis
    using assms
    by (simp add: validateCityExists_def destinationsGet_def httpGet_def decode_def okStatus_def
        Let_def)
qed

text \<open>
  What the \<^verbatim>\<open>catch\<close> does with a failed read: the error is thrown again exactly
  when its message does not include \<^verbatim>\<open>404\<close>.
\<close>

lemma validateCityExists_failure:
  assumes "fst (destinationsGet env (''/cities/'' @ cityId)) = Inl e"
  shows "fst (validateCityExists env cityId) =
           (if includesStr (message e) ''404''
            then Inr (Invalid (''City with ID '' @ [CHR 0x27] @ cityId @ [CHR 0x27] @ '' does not exist''))
            else Inl e)"
  using assms
  by (cases "destinationsGet env (''/cities/'' @ cityId)") (simp add: validateCityExists_def)

text \<open>
  C4. The check decides by \<^verbatim>\<open>error.message.includes('404')\<close>, and the message of an
  HTTP error holds the address of the request. In the example environment the read of
  the city \<^verbatim>\<open>1404\<close> fails with status 500, and the check answers
  \<^verbatim>\<open>{ valid: false, error: "City with ID '1404' does not exist" }\<close> instead of
  throwing the error again.
\<close>

theorem validateCityExists_swallows_500:
  "fetch demoEnv (Request GET ''http://destinations/cities/1404'' None) =
     Response 500 ''Internal Server Error'' (Inr (JObj [(''error'', JStr ''database down'')]))
   \<and> validateCityExists demoEnv ''1404'' =
     (Inr (Invalid (''City with ID '' @ [CHR 0x27] @ ''1404'' @ [CHR 0x27] @ '' does not exist'')),
      [Request GET ''http://destinations/cities/1404'' None])"
  by (simp add: validateCityExists_def eval_http)

section \<open>The lodging-class check (C5)\<close>

lemma classMatches_sameClass:
  "sameClass a b \<Longrightarrow> classMatches c a = classMatches c b"
  by (auto simp: sameClass_def classMatches_def split: jsval.splits)

lemma someJs_sameClass:
  "list_all2 sameClass cs cs' \<Longrightarrow> someJs (classMatches c) cs = someJs (classMatches c) cs'"
  by (induction cs cs' rule: list_all2_induct)
     (auto simp: classMatches_sameClass split: sum.splits)

lemma classMatches_name:
  "classNameOf x = Some n \<Longrightarrow> classMatches (JStr c) x = Inr (n = c)"
  by (cases x) (auto simp: classMatches_def split: option.splits jsval.splits)

lemma someJs_names:
  "list_all (\<lambda>x. classNameOf x \<noteq> None) cs \<Longrightarrow>
   someJs (classMatches (JStr c)) cs = Inr (Some c \<in> set (map classNameOf cs))"
proof (induction cs)
  case Nil
  then show ?case by simp
next
  case (Cons x cs)
  then obtain n where n: "classNameOf x = Some n" by auto
  with Cons show ?case by (auto simp: classMatches_name)
qed

lemma validateLodgingClass_withClasses:
  "validateLodgingClass (withClasses env cs) c =
     (case someJs (classMatches c) cs of
        Inl e \<Rightarrow> (Inl e, [lodgingClassesRequest env])
      | Inr True \<Rightarrow> (Inr Valid, [lodgingClassesRequest env])
      | Inr False \<Rightarrow>
          (case toStringJs (hostNumStr env) c of
             Inl e \<Rightarrow> (Inl e, [lodgingClassesRequest env])
           | Inr s \<Rightarrow>
               (Inr (Invalid (''Lodging class '' @ [CHR 0x27] @ s @ [CHR 0x27] @ '' does not exist'')),
                [lodgingClassesRequest env])))"
  by (simp add: validateLodgingClass_def withClasses_def pricingGet_def httpGet_def
      lodgingClassesRequest_def decode_def okStatus_def lift_def ret_def Let_def
      split: sum.splits bool.splits)

text \<open>
  C5. When two lists of lodging classes differ only in the representation of their
  elements (a bare string against an object whose \<^verbatim>\<open>class_name\<close> is that string), the
  check returns the same result for both, whatever class is asked for. And on a list
  of lodging classes in either representation the check of a class name returns a
  result and does not throw: valid when the name is in the list, and the invalid
  result \<^verbatim>\<open>Lodging class '<name>' does not exist\<close> when it is absent.
\<close>

theorem validateLodgingClass_representation:
  "(list_all2 sameClass cs cs' \<longrightarrow>
      validateLodgingClass (withClasses env cs) c = validateLodgingClass (withClasses env cs') c)
   \<and> (list_all (\<lambda>x. classNameOf x \<noteq> None) cs \<longrightarrow>
        validateLodgingClass (withClasses env cs) (JStr n) =
          (if Some n \<in> set (map classNameOf cs) then Inr Valid
           else Inr (Invalid (''Lodging class '' @ [CHR 0x27] @ n @ [CHR 0x27] @ '' does not exist'')),
           [lodgingClassesRequest env]))"
  by (simp add: validateLodgingClass_withClasses someJs_sameClass someJs_names)

theorem validateLodgingClass_representation_witness:
  "validateLodgingClass
     (withClasses demoEnv [JStr ''standard'', JObj [(''class_name'', JStr ''deluxe'')]])
     (JStr ''deluxe'')
   = validateLodgingClass
       (withClasses demoEnv [JObj [(''id'', JNum (Fin 1)), (''class_name'', JStr ''standard'')],
                             JStr ''deluxe''])
       (JStr ''deluxe'')
   \<and> validateLodgingClass
       (withClasses demoEnv [JStr ''standard'', JObj [(''class_name'', JStr ''deluxe'')]])
       (JStr ''deluxe'')
     = (Inr Valid, [Request GET ''http://pricing/lodging-classes'' None])
   \<and> validateLodgingClass
       (withClasses demoEnv [JStr ''standard'', JObj [(''class_name'', JStr ''deluxe'')]])
       (JStr ''suite'')
     = (Inr (Invalid (''Lodging class '' @ [CHR 0x27] @ ''suite'' @ [CHR 0x27] @ '' does not exist'')),
        [Request GET ''http://pricing/lodging-classes'' None])"
proof -
  let ?A = "[JStr ''standard'', JObj [(''class_name'', JStr ''deluxe'')]]"
  let ?B = "[JObj [(''id'', JNum (Fin 1)), (''class_name'', JStr ''standard'')], JStr ''deluxe'']"
  have same: "list_all2 sameClass ?A ?B"
    by (simp add: sameClass_def)
  have reps: "list_all (\<lambda>x. classNameOf x \<noteq> None) ?A"
    by simp
  have 1: "validateLodgingClass (withClasses demoEnv ?A) (JStr ''deluxe'')
             = validateLodgingClass (withClasses demoEnv ?B) (JStr ''deluxe'')"
    using validateLodgingClass_representation [of ?A ?B demoEnv "JStr ''deluxe''" "''deluxe''"] same
    by blast
  have 2: "validateLodgingClass (withClasses demoEnv ?A) (JStr ''deluxe'')
             = (Inr Valid, [Request GET ''http://pricing/lodging-classes'' None])"
    using validateLodgingClass_representation [of ?A ?B demoEnv "JStr ''deluxe''" "''deluxe''"] reps
    by (simp add: lodgingClassesRequest_def)
  have 3: "validateLodgingClass (withClasses demoEnv ?A) (JStr ''suite'')
             = (Inr (Invalid (''Lodging class '' @ [CHR 0x27] @ ''suite'' @ [CHR 0x27] @ '' does not exist'')),
                [Request GET ''http://pricing/lodging-classes'' None])"
    using validateLodgingClass_representation [of ?A ?B demoEnv "JStr ''suite''" "''suite''"] reps
    by (simp add: lodgingClassesRequest_def)
  show ?thesis
    using 1 2 3 by blast
qed

section \<open>Compute quotes: an itinerary without segments (C6)\<close>

text \<open>
  C6. When the read of the segments of the itinerary answers the empty array, the
  route answers \<^verbatim>\<open>{ total: 0, segments: [] }\<close> and the one request it issues is that
  read of the itineraries service: no request goes to the pricing or the destinations
  service, and nothing they would answer enters the result.
\<close>

theorem getQuotes_no_segments:
  assumes "fetch env (Request GET (ITINERARIES_URL env @ ''/itineraries/'' @ itineraryId @ ''/segments'') None)
             = Response st txt (Inr (JArr []))"
      and "okStatus st"
  shows "getQuotes env itineraryId =
           (Reply 200 (JObj [(''total'', JNum (Fin 0)), (''segments'', JArr [])]),
            [Request GET (ITINERARIES_URL env @ ''/itineraries/'' @ itineraryId @ ''/segments'') None])"
  using assms
  by (simp add: getQuotes_def itinerariesGet_def httpGet_def decode_def Let_def catch500_def ret_def)

theorem getQuotes_no_segments_witness:
  "getQuotes demoEnv ''it0'' =
     (Reply 200 (JObj [(''total'', JNum (Fin 0)), (''segments'', JArr [])]),
      [Request GET ''http://itineraries/itineraries/it0/segments'' None])"
  using getQuotes_no_segments [of demoEnv "''it0''" 200 "''OK''"]
  by (simp add: demoFetch_def okStatus_def)

section \<open>Compute quotes (C2, C9)\<close>


lemma getQuotes_success:
  assumes "itinerariesGet env (''/itineraries/'' @ itineraryId @ ''/segments'') = (Inr (JArr segs), t0)"
      and "segs \<noteq> []"
      and "promiseAll (race env) (map (segmentQuote env) segs) = (Inr qs, t1)"
  shows "getQuotes env itineraryId =
           (Reply 200
              (JObj [(''itinerary_id'', JStr itineraryId),
                     (''total'', JNum (grandTotal qs)),
                     (''segments'', JArr (map quoteJson qs))]),
            t0 @ t1)"
  using assms
  by (simp add: getQuotes_def catch500_def ret_def)








text \<open>The further roundings of the example; the last one is not exact.\<close>

lemma round_5_2: "roundDouble (5 / 2) = Fin (5 / 2)"
  using roundDouble_half [of 5] by simp

lemma round_199_2: "roundDouble (199 / 2) = Fin (199 / 2)"
  using roundDouble_half [of 199] by simp

lemma round_597_2: "roundDouble (597 / 2) = Fin (597 / 2)"
  using roundDouble_half [of 597] by simp

lemma round_1197_2: "roundDouble (1197 / 2) = Fin (1197 / 2)"
  using roundDouble_half [of 1197] by simp

lemma round_sum:
  "roundDouble (2696755456869453005 / 4503599627370496) = Fin (2633550250849075 / 4398046511104)"
  using roundDouble_nearI [of 9 "2696755456869453005 / 4503599627370496" 5267100501698150] by simp

lemma ceil_5_2: "\<lceil>(5 :: rat) / 2\<rceil> = 3"
  by (rule ceiling_unique) simp_all

lemmas eval_quotes =
  segmentQuote_def cityAndRates_def memberStr_def promiseAll2_def promiseAll_def
  computeQuote_def priceOf_def nightsBetween_def subNum_def msPerDay_def lift_def
  parseFloatStr_def parseExponent_def isSpace_def eval_round
  round_5_2 round_199_2 round_597_2 round_1197_2 round_1_10 round_3_10 round_sum ceil_5_2

lemma segmentQuote_demo_s1:
  "segmentQuote demoEnv
     (JObj [(''id'', JStr ''s1''), (''city_id'', JStr ''paris''),
            (''lodging_class'', JStr ''standard''), (''start_date'', JStr ''2024-01-01''),
            (''end_date'', JStr ''2024-01-04'')]) =
   (Inr \<lparr>segment_id = JStr ''s1'', city_name = JStr ''Paris'',
         lodging_class = JStr ''standard'', nights = Fin 3, price_per_night = Fin 100,
         currency = JStr ''EUR'', quote_total = Fin 300\<rparr>,
    [Request GET ''http://destinations/cities/paris'' None,
     Request GET ''http://pricing/rates?city_id=paris&lodging_class=standard'' None])"
  by (simp add: eval_quotes eval_http eval_dates inherited_def objectPrototypeKeys_def)

lemma segmentQuote_demo_s2:
  "segmentQuote demoEnv
     (JObj [(''id'', JStr ''s2''), (''city_id'', JStr ''paris''),
            (''lodging_class'', JStr ''suite''), (''start_date'', JStr ''2024-03-01T12:00:00.000Z''),
            (''end_date'', JStr ''2024-03-04T00:00:00.000Z'')]) =
   (Inr \<lparr>segment_id = JStr ''s2'', city_name = JStr ''Paris'',
         lodging_class = JStr ''suite'', nights = Fin 3, price_per_night = Fin (199 / 2),
         currency = JStr ''EUR'', quote_total = Fin (597 / 2)\<rparr>,
    [Request GET ''http://destinations/cities/paris'' None,
     Request GET ''http://pricing/rates?city_id=paris&lodging_class=suite'' None])"
  by (simp add: eval_quotes eval_http eval_dates inherited_def objectPrototypeKeys_def)

lemma segmentQuote_demo_s3:
  "segmentQuote demoEnv
     (JObj [(''id'', JStr ''s3''), (''city_id'', JStr ''paris''),
            (''lodging_class'', JStr ''hostel''), (''start_date'', JStr ''2024-01-01''),
            (''end_date'', JStr ''2024-01-02'')]) =
   (Inr \<lparr>segment_id = JStr ''s3'', city_name = JStr ''Paris'',
         lodging_class = JStr ''hostel'', nights = Fin 1, price_per_night = Fin 0,
         currency = JStr ''EUR'', quote_total = Fin 0\<rparr>,
    [Request GET ''http://destinations/cities/paris'' None,
     Request GET ''http://pricing/rates?city_id=paris&lodging_class=hostel'' None])"
  by (simp add: eval_quotes eval_http eval_dates inherited_def objectPrototypeKeys_def)

lemma segmentQuote_demo_s4:
  "segmentQuote demoEnv
     (JObj [(''id'', JStr ''s4''), (''city_id'', JStr ''paris''),
            (''lodging_class'', JStr ''dorm''), (''start_date'', JStr ''2024-02-27''),
            (''end_date'', JStr ''2024-03-01'')]) =
   (Inr \<lparr>segment_id = JStr ''s4'', city_name = JStr ''Paris'',
         lodging_class = JStr ''dorm'', nights = Fin 3,
         price_per_night = Fin (3602879701896397 / 36028797018963968),
         currency = JStr ''EUR'', quote_total = Fin (1351079888211149 / 4503599627370496)\<rparr>,
    [Request GET ''http://destinations/cities/paris'' None,
     Request GET ''http://pricing/rates?city_id=paris&lodging_class=dorm'' None])"
  by (simp add: eval_quotes eval_http eval_dates inherited_def objectPrototypeKeys_def)


lemma getQuotes_demo_it4:
  "getQuotes demoEnv ''it4'' =
     (Reply 200
        (JObj [(''itinerary_id'', JStr ''it4''),
               (''total'', JNum (Fin (2633550250849075 / 4398046511104))),
               (''segments'',
                JArr [JObj [(''segment_id'', JStr ''s1''), (''city_name'', JStr ''Paris''),
                            (''lodging_class'', JStr ''standard''), (''nights'', JNum (Fin 3)),
                            (''price_per_night'', JNum (Fin 100)), (''currency'', JStr ''EUR''),
                            (''total'', JNum (Fin 300))],
                      JObj [(''segment_id'', JStr ''s2''), (''city_name'', JStr ''Paris''),
                            (''lodging_class'', JStr ''suite''), (''nights'', JNum (Fin 3)),
                            (''price_per_night'', JNum (Fin (199 / 2))), (''currency'', JStr ''EUR''),
                            (''total'', JNum (Fin (597 / 2)))],
                      JObj [(''segment_id'', JStr ''s3''), (''city_name'', JStr ''Paris''),
                            (''lodging_class'', JStr ''hostel''), (''nights'', JNum (Fin 1)),
                            (''price_per_night'', JNum (Fin 0)), (''currency'', JStr ''EUR''),
                            (''total'', JNum (Fin 0))],
                      JObj [(''segment_id'', JStr ''s4''), (''city_name'', JStr ''Paris''),
                            (''lodging_class'', JStr ''dorm''), (''nights'', JNum (Fin 3)),
                            (''price_per_night'', JNum (Fin (3602879701896397 / 36028797018963968))),
                            (''currency'', JStr ''EUR''),
                            (''total'', JNum (Fin (1351079888211149 / 4503599627370496)))]])]),
      [Request GET ''http://itineraries/itineraries/it4/segments'' None,
       Request GET ''http://destinations/cities/paris'' None,
       Request GET ''http://pricing/rates?city_id=paris&lodging_class=standard'' None,
       Request GET ''http://destinations/cities/paris'' None,
       Request GET ''http://pricing/rates?city_id=paris&lodging_class=suite'' None,
       Request GET ''http://destinations/cities/paris'' None,
       Request GET ''http://pricing/rates?city_id=paris&lodging_class=hostel'' None,
       Request GET ''http://destinations/cities/paris'' None,
       Request GET ''http://pricing/rates?city_id=paris&lodging_class=dorm'' None])"
proof -
  have read: "itinerariesGet demoEnv (''/itineraries/'' @ ''it4'' @ ''/segments'') =
     (Inr (JArr [JObj [(''id'', JStr ''s1''), (''city_id'', JStr ''paris''),
                       (''lodging_class'', JStr ''standard''),
                       (''start_date'', JStr ''2024-01-01''),
                       (''end_date'', JStr ''2024-01-04'')],
                 JObj [(''id'', JStr ''s2''), (''city_id'', JStr ''paris''),
                       (''lodging_class'', JStr ''suite''),
                       (''start_date'', JStr ''2024-03-01T12:00:00.000Z''),
                       (''end_date'', JStr ''2024-03-04T00:00:00.000Z'')],
                 JObj [(''id'', JStr ''s3''), (''city_id'', JStr ''paris''),
                       (''lodging_class'', JStr ''hostel''),
                       (''start_date'', JStr ''2024-01-01''),
                       (''end_date'', JStr ''2024-01-02'')],
                 JObj [(''id'', JStr ''s4''), (''city_id'', JStr ''paris''),
                       (''lodging_class'', JStr ''dorm''),
                       (''start_date'', JStr ''2024-02-27''),
                       (''end_date'', JStr ''2024-03-01'')]]),
      [Request GET ''http://itineraries/itineraries/it4/segments'' None])"
    by (simp add: eval_http)
  show ?thesis
    using getQuotes_success [OF read]
    by (simp add: segmentQuote_demo_s1 segmentQuote_demo_s2 segmentQuote_demo_s3
          segmentQuote_demo_s4 promiseAll_def grandTotal_def quoteJson_def eval_round
          round_1197_2 round_sum)
qed








lemma getQuotes_demo_it2:
  "getQuotes demoEnv ''it2'' =
     (Reply 200
        (JObj [(''itinerary_id'', JStr ''it2''),
               (''total'', JNum (Fin 100)),
               (''segments'',
                JArr [JObj [(''segment_id'', JStr ''s1''), (''city_name'', JStr ''Paris''),
                            (''lodging_class'', JStr ''standard''), (''nights'', JNum (Fin 3)),
                            (''price_per_night'', JNum (Fin 100)), (''currency'', JStr ''EUR''),
                            (''total'', JNum (Fin 300))],
                      JObj [(''segment_id'', JStr ''s2''), (''city_name'', JStr ''Paris''),
                            (''lodging_class'', JStr ''standard''), (''nights'', JNum (Fin (- 2))),
                            (''price_per_night'', JNum (Fin 100)), (''currency'', JStr ''EUR''),
                            (''total'', JNum (Fin (- 200)))]])]),
      [Request GET ''http://itineraries/itineraries/it2/segments'' None,
       Request GET ''http://destinations/cities/paris'' None,
       Request GET ''http://pricing/rates?city_id=paris&lodging_class=standard'' None,
       Request GET ''http://destinations/cities/paris'' None,
       Request GET ''http://pricing/rates?city_id=paris&lodging_class=standard'' None])"
  by (simp add: getQuotes_def grandTotal_def quoteJson_def catch500_def ret_def eval_quotes
      eval_http eval_dates inherited_def objectPrototypeKeys_def)


section \<open>Fetch composite itinerary (C10)\<close>

lemma map_of_setProps_other:
  "k \<notin> fst ` set ps \<Longrightarrow> map_of (setProps fs ps) k = map_of fs k"
  unfolding setProps_def
  by (induction ps arbitrary: fs) (auto simp: update_conv')

lemma map_of_setProps_single: "map_of (setProps fs [(k, v)]) k = Some v"
  by (simp add: setProps_def update_conv')

lemma enrichSegment_Inr:
  assumes "fst (enrichSegment env segment) = Inr e"
  shows "\<exists>a b c d. e = JObj (setProps (ownProps segment)
                            [(''city_name'', a), (''country_code'', b), (''currency'', c),
                             (''rates'', d)])"
  using assms
  by (auto simp: enrichSegment_def fst_andThen lift_def ret_def split: sum.splits prod.splits)

lemma enrichSegment_frame:
  assumes "fst (enrichSegment env (JObj fs)) = Inr e"
      and "k \<notin> {''city_name'', ''country_code'', ''currency'', ''rates''}"
  shows "getProp e k = getProp (JObj fs) k"
proof -
  obtain a b c d where e: "e = JObj (setProps fs [(''city_name'', a), (''country_code'', b),
                                                  (''currency'', c), (''rates'', d)])"
    using enrichSegment_Inr [OF assms(1)] by auto
  have "map_of (setProps fs [(''city_name'', a), (''country_code'', b), (''currency'', c),
                             (''rates'', d)]) k = map_of fs k"
    using assms(2) by (intro map_of_setProps_other) simp
  then show ?thesis
    by (simp add: e)
qed

lemma promiseAll2_Inr:
  "fst a = Inr x \<Longrightarrow> fst b = Inr y \<Longrightarrow> promiseAll2 rc a b = (Inr (x, y), snd a @ snd b)"
  by (simp add: promiseAll2_def)

text \<open>
  C10. When the two reads of the itineraries service return an itinerary object and
  an array of segment objects, and every segment is enriched, the route answers 200
  with the itinerary object in which \<^verbatim>\<open>segments\<close> is the array of the enriched
  segments: every other member of the answer reads as in the fetched itinerary, and
  every member of an enriched segment other than \<^verbatim>\<open>city_name\<close>, \<^verbatim>\<open>country_code\<close>,
  \<^verbatim>\<open>currency\<close> and \<^verbatim>\<open>rates\<close> reads as in the upstream segment at the same index.
\<close>

theorem getItinerary_frame:
  assumes "fst (itinerariesGet env (''/itineraries/'' @ itineraryId)) = Inr (JObj itinerary)"
      and "fst (itinerariesGet env (''/itineraries/'' @ itineraryId @ ''/segments'')) = Inr (JArr segs)"
      and "list_all isObject segs"
      and "fst (promiseAll (race env) (map (enrichSegment env) segs)) = Inr enriched"
  shows "fst (getItinerary env itineraryId) =
           Reply 200 (JObj (setProps itinerary [(''segments'', JArr enriched)]))
         \<and> (\<forall>k. k \<noteq> ''segments'' \<longrightarrow>
               getProp (JObj (setProps itinerary [(''segments'', JArr enriched)])) k
                 = getProp (JObj itinerary) k)
         \<and> getProp (JObj (setProps itinerary [(''segments'', JArr enriched)])) ''segments''
             = Inr (JArr enriched)
         \<and> length enriched = length segs
         \<and> (\<forall>i<length segs. \<forall>k.
               k \<notin> {''city_name'', ''country_code'', ''currency'', ''rates''} \<longrightarrow>
               getProp (enriched ! i) k = getProp (segs ! i) k)"
proof (intro conjI allI impI)
  let ?a = "itinerariesGet env (''/itineraries/'' @ itineraryId)"
  let ?b = "itinerariesGet env (''/itineraries/'' @ itineraryId @ ''/segments'')"
  let ?all = "promiseAll (race env) (map (enrichSegment env) segs)"
  obtain t0 where two: "promiseAll2 (race env) ?a ?b = (Inr (JObj itinerary, JArr segs), t0)"
    using promiseAll2_Inr [OF assms(1,2)] by blast
  obtain t1 where all: "?all = (Inr enriched, t1)"
    using assms(4) by (cases ?all) simp
  show "fst (getItinerary env itineraryId) =
           Reply 200 (JObj (setProps itinerary [(''segments'', JArr enriched)]))"
    unfolding getItinerary_def two
    by (simp add: all catch500_def ret_def del: snd_promiseAll)
  show "getProp (JObj (setProps itinerary [(''segments'', JArr enriched)])) ''segments''
             = Inr (JArr enriched)"
    by (simp add: map_of_setProps_single)
  show len: "length enriched = length segs"
    using promiseAll_Inr_nth(1) [OF assms(4)] by simp
next
  fix k :: string assume "k \<noteq> ''segments''"
  then have "map_of (setProps itinerary [(''segments'', JArr enriched)]) k = map_of itinerary k"
    by (intro map_of_setProps_other) simp
  then show "getProp (JObj (setProps itinerary [(''segments'', JArr enriched)])) k
                 = getProp (JObj itinerary) k"
    by simp
next
  fix i k assume i: "i < length segs"
    and k: "k \<notin> {''city_name'', ''country_code'', ''currency'', ''rates''}"
  obtain fs where fs: "segs ! i = JObj fs"
    using assms(3) i by (cases "segs ! i") (auto simp: list_all_length)
  have "fst (enrichSegment env (segs ! i)) = Inr (enriched ! i)"
    using promiseAll_Inr_nth(2) [OF assms(4), of i] i by simp
  then show "getProp (enriched ! i) k = getProp (segs ! i) k"
    using enrichSegment_frame [of env fs "enriched ! i" k] k by (simp add: fs)
qed

lemma enrichSegment_demo_s1:
  "enrichSegment demoEnv
     (JObj [(''id'', JStr ''s1''), (''city_id'', JStr ''paris''),
            (''lodging_class'', JStr ''standard''), (''start_date'', JStr ''2024-01-01''),
            (''end_date'', JStr ''2024-01-04'')]) =
   (Inr (JObj [(''id'', JStr ''s1''), (''city_id'', JStr ''paris''),
               (''lodging_class'', JStr ''standard''), (''start_date'', JStr ''2024-01-01''),
               (''end_date'', JStr ''2024-01-04''), (''city_name'', JStr ''Paris''),
               (''country_code'', JStr ''FR''), (''currency'', JStr ''EUR''),
               (''rates'', JArr [JObj [(''price_per_night'', JStr ''100.00'')]])]),
    [Request GET ''http://destinations/cities/paris'' None,
     Request GET ''http://pricing/rates?city_id=paris&lodging_class=standard'' None])"
  by (simp add: enrichSegment_def cityAndRates_def memberStr_def promiseAll2_def lift_def ret_def
      setProps_def eval_http)

theorem getItinerary_frame_witness:
  "fst (getItinerary demoEnv ''it1'') =
     Reply 200
       (JObj [(''id'', JStr ''it1''), (''name'', JStr ''Trip''),
              (''segments'',
               JArr [JObj [(''id'', JStr ''s1''), (''city_id'', JStr ''paris''),
                           (''lodging_class'', JStr ''standard''),
                           (''start_date'', JStr ''2024-01-01''),
                           (''end_date'', JStr ''2024-01-04''), (''city_name'', JStr ''Paris''),
                           (''country_code'', JStr ''FR''), (''currency'', JStr ''EUR''),
                           (''rates'', JArr [JObj [(''price_per_night'', JStr ''100.00'')]])]])])"
proof -
  let ?s1 = "JObj [(''id'', JStr ''s1''), (''city_id'', JStr ''paris''),
                   (''lodging_class'', JStr ''standard''), (''start_date'', JStr ''2024-01-01''),
                   (''end_date'', JStr ''2024-01-04'')]"
  let ?e1 = "JObj [(''id'', JStr ''s1''), (''city_id'', JStr ''paris''),
                   (''lodging_class'', JStr ''standard''), (''start_date'', JStr ''2024-01-01''),
                   (''end_date'', JStr ''2024-01-04''), (''city_name'', JStr ''Paris''),
                   (''country_code'', JStr ''FR''), (''currency'', JStr ''EUR''),
                   (''rates'', JArr [JObj [(''price_per_night'', JStr ''100.00'')]])]"
  have h1: "fst (itinerariesGet demoEnv (''/itineraries/'' @ ''it1''))
              = Inr (JObj [(''id'', JStr ''it1''), (''name'', JStr ''Trip'')])"
    by (simp add: eval_http)
  have h2: "fst (itinerariesGet demoEnv (''/itineraries/'' @ ''it1'' @ ''/segments''))
              = Inr (JArr [?s1])"
    by (simp add: eval_http)
  have h3: "list_all isObject [?s1]" by simp
  have h4: "fst (promiseAll (race demoEnv) (map (enrichSegment demoEnv) [?s1])) = Inr [?e1]"
    by (simp add: enrichSegment_demo_s1 promiseAll_def)
  show ?thesis
    using getItinerary_frame [OF h1 h2 h3 h4] by (simp add: setProps_def)
qed

section \<open>Fetch destinations (C7)\<close>

lemmas eval_destinations =
  getDestinations_def promiseAll2_def unwrapData_def groupStep_def memberStr_def enrichCity_def
  seasonsOf_def setProps_def inherited_def objectPrototypeKeys_def catch500_def ret_def lift_def

text \<open>The scenario of the specification: two cities, one season of the first.\<close>

lemma getDestinations_demo:
  "getDestinations demoEnv =
     (Reply 200
        (JArr [JObj [(''id'', JStr ''c1''), (''seasons'', JArr [JObj [(''city_id'', JStr ''c1'')]])],
               JObj [(''id'', JStr ''c2''), (''seasons'', JArr [])]]),
      [Request GET ''http://destinations/cities?limit=100'' None,
       Request GET ''http://destinations/seasons?limit=100'' None])"
  by (simp add: eval_destinations eval_http)

subsection \<open>What the grouping does away from inherited keys\<close>

lemma unwrapData_bare: "unwrapData (JArr xs) = Inr (JArr xs)"
  by (simp add: unwrapData_def inherited_def objectPrototypeKeys_def)

lemma unwrapData_wrapper:
  "map_of fs ''data'' = Some (JArr xs) \<Longrightarrow> unwrapData (JObj fs) = Inr (JArr xs)"
  by (simp add: unwrapData_def)

lemma reduceE_groupStep:
  assumes "\<forall>s\<in>set ss. \<exists>k. memberStr env s ''city_id'' = Inr k \<and> k \<notin> set objectPrototypeKeys"
  shows "\<exists>g. reduceE (groupStep env) acc ss = Inr g
             \<and> (\<forall>k. map_of g k =
                   (case map_of acc k of
                      Some old \<Rightarrow> Some (old @ filter (\<lambda>s. memberStr env s ''city_id'' = Inr k) ss)
                    | None \<Rightarrow>
                        if filter (\<lambda>s. memberStr env s ''city_id'' = Inr k) ss = [] then None
                        else Some (filter (\<lambda>s. memberStr env s ''city_id'' = Inr k) ss)))"
  using assms
proof (induction ss arbitrary: acc)
  case Nil
  show ?case by (auto split: option.splits)
next
  case (Cons s ss)
  then obtain k0 where k0: "memberStr env s ''city_id'' = Inr k0" "k0 \<notin> set objectPrototypeKeys"
    by auto
  define acc' where
    "acc' = AList.update k0 ((case map_of acc k0 of Some old \<Rightarrow> old | None \<Rightarrow> []) @ [s]) acc"
  have step: "groupStep env acc s = Inr acc'"
    using k0 by (simp add: groupStep_def acc'_def split: option.splits)
  have rest: "\<forall>s\<in>set ss. \<exists>k. memberStr env s ''city_id'' = Inr k \<and> k \<notin> set objectPrototypeKeys"
    using Cons.prems by simp
  from Cons.IH [OF rest, of acc'] obtain g where
      g: "reduceE (groupStep env) acc' ss = Inr g"
      and m: "\<And>k. map_of g k =
                   (case map_of acc' k of
                      Some old \<Rightarrow> Some (old @ filter (\<lambda>s. memberStr env s ''city_id'' = Inr k) ss)
                    | None \<Rightarrow>
                        if filter (\<lambda>s. memberStr env s ''city_id'' = Inr k) ss = [] then None
                        else Some (filter (\<lambda>s. memberStr env s ''city_id'' = Inr k) ss))"
    by blast
  have "reduceE (groupStep env) acc (s # ss) = Inr g"
    using step g by simp
  moreover have "map_of g k =
                   (case map_of acc k of
                      Some old \<Rightarrow> Some (old @ filter (\<lambda>s. memberStr env s ''city_id'' = Inr k) (s # ss))
                    | None \<Rightarrow>
                        if filter (\<lambda>s. memberStr env s ''city_id'' = Inr k) (s # ss) = [] then None
                        else Some (filter (\<lambda>s. memberStr env s ''city_id'' = Inr k) (s # ss)))" for k
  proof -
    let ?old0 = "case map_of acc k0 of Some old \<Rightarrow> old | None \<Rightarrow> []"
    have upd: "map_of acc' = (map_of acc)(k0 \<mapsto> ?old0 @ [s])"
      by (simp add: acc'_def update_conv')
    show ?thesis
    proof (cases "k = k0")
      case True
      have "map_of g k0 = Some ((?old0 @ [s]) @ filter (\<lambda>s. memberStr env s ''city_id'' = Inr k0) ss)"
        using m [of k0] by (simp add: upd)
      then show ?thesis
        using True k0(1) by (simp split: option.splits)
    next
      case False
      have ne: "memberStr env s ''city_id'' \<noteq> Inr k"
        using False k0(1) by simp
      show ?thesis
        using m [of k] ne False by (simp add: upd split: option.splits)
    qed
  qed
  ultimately show ?case by blast
qed

lemma mapE_total:
  assumes "\<forall>x\<in>set xs. f x = Inr (g x)"
  shows "mapE f xs = Inr (map g xs)"
  using assms by (induction xs) simp_all

text \<open>
  Cities and seasons may each arrive bare or wrapped in \<^verbatim>\<open>{ data: [...] }\<close>
  (\<open>unwrapData_bare\<close>, \<open>unwrapData_wrapper\<close>). When no key is a member inherited
  from \<^verbatim>\<open>Object.prototype\<close>, every city is answered with its own members and, as
  \<^verbatim>\<open>seasons\<close>, the seasons whose \<^verbatim>\<open>city_id\<close> converts to the same key as its \<^verbatim>\<open>id\<close>,
  in the order of the seasons list (the empty list when there is none).
\<close>

lemma getDestinations_grouping:
  assumes "fst (destinationsGet env ''/cities?limit=100'') = Inr citiesResponse"
      and "fst (destinationsGet env ''/seasons?limit=100'') = Inr seasonsResponse"
      and "unwrapData citiesResponse = Inr (JArr cities)"
      and "unwrapData seasonsResponse = Inr (JArr seasons)"
      and "\<forall>s\<in>set seasons. \<exists>k. memberStr env s ''city_id'' = Inr k \<and> k \<notin> set objectPrototypeKeys"
      and "\<forall>c\<in>set cities. \<exists>k. memberStr env c ''id'' = Inr k \<and> k \<notin> set objectPrototypeKeys"
  shows "fst (getDestinations env) =
           Reply 200
             (JArr (map (\<lambda>c. JObj (setProps (ownProps c)
                                      [(''seasons'',
                                        JArr (filter (\<lambda>s. memberStr env s ''city_id''
                                                            = memberStr env c ''id'') seasons))]))
                      cities))"
proof -
  let ?a = "destinationsGet env ''/cities?limit=100''"
  let ?b = "destinationsGet env ''/seasons?limit=100''"
  obtain t0 where two: "promiseAll2 (race env) ?a ?b = (Inr (citiesResponse, seasonsResponse), t0)"
    using promiseAll2_Inr [OF assms(1,2)] by blast
  have "\<exists>g. reduceE (groupStep env) [] seasons = Inr g
            \<and> (\<forall>k. map_of g k =
                  (if filter (\<lambda>s. memberStr env s ''city_id'' = Inr k) seasons = [] then None
                   else Some (filter (\<lambda>s. memberStr env s ''city_id'' = Inr k) seasons)))"
    using reduceE_groupStep [OF assms(5), of "[]"] by simp
  then obtain g where
      gm: "reduceE (groupStep env) [] seasons = Inr g
            \<and> (\<forall>k. map_of g k =
                  (if filter (\<lambda>s. memberStr env s ''city_id'' = Inr k) seasons = [] then None
                   else Some (filter (\<lambda>s. memberStr env s ''city_id'' = Inr k) seasons)))" ..
  note g = gm [THEN conjunct1] and m = gm [THEN conjunct2, rule_format]
  have city: "enrichCity env g c =
                Inr (JObj (setProps (ownProps c)
                       [(''seasons'', JArr (filter (\<lambda>s. memberStr env s ''city_id''
                                                          = memberStr env c ''id'') seasons))]))"
    if "c \<in> set cities" for c
  proof -
    have "\<exists>k. memberStr env c ''id'' = Inr k \<and> k \<notin> set objectPrototypeKeys"
      using assms(6) that by (rule bspec)
    then obtain k where kk: "memberStr env c ''id'' = Inr k \<and> k \<notin> set objectPrototypeKeys" ..
    note k = kk [THEN conjunct1] kk [THEN conjunct2]
    have "seasonsOf g k = JArr (filter (\<lambda>s. memberStr env s ''city_id'' = Inr k) seasons)"
      using k(2) by (simp add: seasonsOf_def m inherited_def)
    then show ?thesis
      using k(1) by (simp add: enrichCity_def)
  qed
  have cs: "mapE (enrichCity env g) cities =
          Inr (map (\<lambda>c. JObj (setProps (ownProps c)
                                [(''seasons'', JArr (filter (\<lambda>s. memberStr env s ''city_id''
                                                                   = memberStr env c ''id'') seasons))]))
                 cities)"
    by (rule mapE_total) (simp add: city)
  show ?thesis
    unfolding getDestinations_def two
    by (simp add: assms(3,4) g cs catch500_def ret_def)
qed

text \<open>
  C7. The grouping is a plain object read with \<^verbatim>\<open>seasonsByCity[city.id] || []\<close>, and a
  plain object inherits members from \<^verbatim>\<open>Object.prototype\<close>. In the environment where
  the destinations service lists the one city \<^verbatim>\<open>constructor\<close> and no season, that
  city is not given the empty sequence: its \<^verbatim>\<open>seasons\<close> is the inherited member
  \<^verbatim>\<open>constructor\<close> (a function, which the JSON encoding of the answer drops).
\<close>

theorem getDestinations_inherited_key:
  "getDestinations protoEnv =
     (Reply 200
        (JArr [JObj [(''id'', JStr ''constructor''), (''seasons'', JBuiltin ''constructor'')]]),
      [Request GET ''http://destinations/cities?limit=100'' None,
       Request GET ''http://destinations/seasons?limit=100'' None])"
  by (simp add: eval_destinations protoEnv_def protoFetch_def destinationsGet_def httpGet_def
      decode_def okStatus_def Let_def)

end
